theory Spec2Isabelle
  imports Main
begin

section \<open>JavaScript values, errors and the environment\<close>

text \<open>
  The program, \<^verbatim>\<open>src/globstar.js\<close>, is a command line tool: it parses its arguments
  with yargs, expands glob patterns with the glob package and runs a command through
  \<^verbatim>\<open>child_process.spawn\<close>. The parsed arguments are a dynamic JavaScript object, so
  they are modelled as a finite map from property names to values.
\<close>

datatype jsval = JBool bool | JNum int | JStr string | JArr "string list"

type_synonym js_object = "string \<Rightarrow> jsval option"

text \<open>JavaScript truthiness; \<open>None\<close> is \<^verbatim>\<open>undefined\<close>.\<close>

fun truthy :: "jsval option \<Rightarrow> bool" where
  "truthy None = False"
| "truthy (Some (JBool b)) = b"
| "truthy (Some (JNum n)) = (n \<noteq> 0)"
| "truthy (Some (JStr s)) = (s \<noteq> [])"
| "truthy (Some (JArr xs)) = True"

text \<open>
  An \<^verbatim>\<open>Error\<close> object, with the three properties the program reads or writes:
  \<^verbatim>\<open>err.name\<close>, \<^verbatim>\<open>err.message\<close> and \<^verbatim>\<open>err.status\<close> (absent unless set).
\<close>

record js_error =
  name :: string
  message :: string
  status :: "int option"

text \<open>
  What a spawned child reports: an \<^verbatim>\<open>'error'\<close> event carrying an error object, or a
  \<^verbatim>\<open>'close'\<close> event carrying the exit status (\<^verbatim>\<open>null\<close>, here \<open>None\<close>, when a signal
  ended the child).
\<close>

datatype child_event = Error_event js_error | Close_event "int option"

text \<open>
  The collaborators that are not part of the repository are parameters:
  \<^item> \<open>yargs\<close>: the parser; it yields the message it passed to the \<^verbatim>\<open>fail\<close> callback
    (if any) and the parsed object;
  \<^item> \<open>scriptPath\<close>, \<open>version\<close>, \<open>platform\<close>: \<^verbatim>\<open>path.relative(process.cwd(), __filename)\<close>,
    \<^verbatim>\<open>packageJson.version\<close> and \<^verbatim>\<open>process.platform\<close>;
  \<^item> \<open>isGlob s strict\<close>: the is-glob test, \<open>strict\<close> being its \<^verbatim>\<open>options.strict\<close>
    (true when no options are passed);
  \<^item> \<open>hasMagic\<close> and \<open>fsMatches\<close>: the matching engine's own syntax test and the
    paths it finds in the file system for a pattern under given options;
  \<^item> \<open>globNoPattern\<close>: the exception \<^verbatim>\<open>glob.sync\<close> raises when it is called with
    \<^verbatim>\<open>undefined\<close> in place of a pattern;
  \<^item> \<open>spawn k cmd args verbatim\<close>: what the \<open>k\<close>-th child of the run does: \<open>Inl e\<close>
    when \<^verbatim>\<open>spawn\<close> itself throws \<open>e\<close>, \<open>Inr evs\<close> for the events the child emits,
    in order. The list is empty for a child that never ends.
\<close>

record env =
  yargs :: "string list \<Rightarrow> string option \<times> js_object"
  scriptPath :: string
  version :: string
  platform :: string
  isGlob :: "string \<Rightarrow> bool \<Rightarrow> bool"
  hasMagic :: "string \<Rightarrow> bool"
  fsMatches :: "string \<Rightarrow> js_object \<Rightarrow> string list"
  globNoPattern :: js_error
  spawn :: "nat \<Rightarrow> string option \<Rightarrow> string list \<Rightarrow> bool \<Rightarrow> js_error + child_event list"

text \<open>
  Everything the program does to the outside is recorded, in order, as a list of effects:
  calls of \<^verbatim>\<open>npmlog.log\<close>, calls of the matching engine, calls of \<^verbatim>\<open>spawn\<close>,
  invocations of the completion callback handed to \<open>spawnCommand\<close>, and calls of
  \<^verbatim>\<open>exit\<close>.
\<close>

datatype log_payload =
    OptsDump js_object
  | Running "string option" "string list"
  | ErrorObject js_error
  | ErrorMessage string
  | TryHelp "jsval option"
  | VersionBanner string

datatype effect =
    Log string log_payload
  | Expand "string option" js_object
  | Spawn "string option" "string list" bool
  | Callback "js_error option"
  | Exit int

text \<open>How a run of \<open>main\<close> ends.\<close>

datatype outcome =
    Exited int
  | Returned
  | Pending
  | Uncaught js_error

section \<open>Small JavaScript primitives\<close>

text \<open>\<^verbatim>\<open>xs[i]\<close>: \<^verbatim>\<open>undefined\<close> outside the array.\<close>

definition jsIndex :: "'a list \<Rightarrow> int \<Rightarrow> 'a option" where
  "jsIndex xs i = (if 0 \<le> i \<and> i < int (length xs) then Some (xs ! nat i) else None)"

text \<open>\<^verbatim>\<open>xs.findIndex(p)\<close>: the first index whose element satisfies \<open>p\<close>, or \<open>-1\<close>.\<close>

fun findIndexFrom :: "int \<Rightarrow> ('a \<Rightarrow> bool) \<Rightarrow> 'a list \<Rightarrow> int" where
  "findIndexFrom i p [] = -1"
| "findIndexFrom i p (x # xs) = (if p x then i else findIndexFrom (i + 1) p xs)"

definition findIndex :: "('a \<Rightarrow> bool) \<Rightarrow> 'a list \<Rightarrow> int" where
  "findIndex p xs = findIndexFrom 0 p xs"

text \<open>
  \<^verbatim>\<open>newArgs[i] = value\<close> on a copy of the array. A negative index sets a property of that
  name and leaves the elements alone; the program never assigns past the end.
\<close>

definition jsAssign :: "'a list \<Rightarrow> int \<Rightarrow> 'a \<Rightarrow> 'a list" where
  "jsAssign xs i v = (if 0 \<le> i then xs[nat i := v] else xs)"

text \<open>Decimal text of a number, for \<^verbatim>\<open>'Exit status ' + status\<close>.\<close>

fun show_nat :: "nat \<Rightarrow> string" where
  "show_nat n =
     (if n < 10 then [''0123456789'' ! n]
      else show_nat (n div 10) @ [''0123456789'' ! (n mod 10)])"

definition show_int :: "int \<Rightarrow> string" where
  "show_int i = (if i < 0 then CHR ''-'' # show_nat (nat (- i)) else show_nat (nat i))"

text \<open>The text of a command that may be \<^verbatim>\<open>undefined\<close>, as string concatenation gives it.\<close>

fun text_of :: "string option \<Rightarrow> string" where
  "text_of None = ''undefined''"
| "text_of (Some s) = s"

section \<open>parseArgv\<close>

definition logLevels :: "string list" where
  "logLevels = [''info'', ''verbose'', ''silly'']"

text \<open>
  \<^verbatim>\<open>2 - Math.max(2 - args.verbose, 0)\<close>. yargs counts the flag, so the value is a number;
  a boolean is coerced as JavaScript does, and a value that is not a number gives
  \<^verbatim>\<open>NaN\<close>, here \<open>None\<close> (indexing the level names with it gives \<^verbatim>\<open>undefined\<close>, and
  the key \<^verbatim>\<open>verbose\<close> is deleted from the glob options in every case).
\<close>

fun toNumber :: "jsval option \<Rightarrow> int option" where
  "toNumber (Some (JNum n)) = Some n"
| "toNumber (Some (JBool b)) = Some (if b then 1 else 0)"
| "toNumber _ = None"

definition clampVerbose :: "jsval option \<Rightarrow> int option" where
  "clampVerbose v = map_option (\<lambda>n. 2 - max (2 - n) 0) (toNumber v)"

definition levelOf :: "int option \<Rightarrow> string option" where
  "levelOf v = (case v of None \<Rightarrow> None | Some n \<Rightarrow> jsIndex logLevels n)"

text \<open>The keys removed from the glob options.\<close>

definition nonGlobFlag :: "string \<Rightarrow> bool" where
  "nonGlobFlag opt =
     (if opt = ''$0'' \<or> opt = ''verbose'' \<or> opt = ''each'' \<or> opt = ''node'' then True
      else length opt = 1)"

text \<open>
  \<^verbatim>\<open>args.ignore || []\<close>. yargs declares the option as an array, so its value is an
  array or absent; a falsy value counts as absent, as in the program.
\<close>

fun ignoreList :: "jsval option \<Rightarrow> string list" where
  "ignoreList (Some (JArr xs)) = xs"
| "ignoreList _ = []"

fun positional :: "jsval option \<Rightarrow> string list" where
  "positional (Some (JArr xs)) = xs"
| "positional _ = []"

text \<open>
  The result of \<open>parseArgv\<close>. It is the error object itself when yargs failed (field
  \<open>failure\<close>), with the same properties added either way.
\<close>

record parsed_argv =
  failure :: "js_error option"
  logLevel :: "string option"
  each :: "jsval option"
  cmd :: "string option"
  args :: "string list"
  script :: "jsval option"
  globOpts :: js_object

definition withDefaults :: "env \<Rightarrow> js_object \<Rightarrow> js_object" where
  "withDefaults E a =
     [''_'' \<mapsto> JArr [], ''$0'' \<mapsto> JStr (scriptPath E), ''verbose'' \<mapsto> JNum 0] ++ a"

definition setVerbose :: "js_object \<Rightarrow> js_object" where
  "setVerbose a =
     a(''verbose'' := map_option JNum (clampVerbose (a ''verbose'')))"

definition addNodeIgnore :: "js_object \<Rightarrow> js_object" where
  "addNodeIgnore a =
     (if truthy (a ''node'')
      then a(''ignore'' \<mapsto> JArr (ignoreList (a ''ignore'') @ [''**/node_modules/**'']))
      else a)"

definition deleteFlags :: "js_object \<Rightarrow> js_object" where
  "deleteFlags a = (\<lambda>opt. if nonGlobFlag opt then None else a opt)"

text \<open>
  \<open>parseArgv\<close> returns its result and the value it stored in the global
  \<^verbatim>\<open>npmlog.level\<close>.
\<close>

definition parseArgv :: "env \<Rightarrow> string list \<Rightarrow> parsed_argv \<times> string option" where
  "parseArgv E argv =
     (let (failed, parsed) = yargs E argv;
          err = map_option (\<lambda>m. \<lparr>name = ''YargsError'', message = m, status = None\<rparr>) failed;
          a = addNodeIgnore (setVerbose (withDefaults E parsed));
          lvl = levelOf (clampVerbose (withDefaults E parsed ''verbose''))
      in (\<lparr>failure = err,
           logLevel = lvl,
           each = a ''each'',
           cmd = jsIndex (positional (a ''_'')) 0,
           args = drop 1 (positional (a ''_'')),
           script = a ''$0'',
           globOpts = deleteFlags a\<rparr>, lvl))"

section \<open>Pattern expansion and the argument builders\<close>

text \<open>
  Modelled from the spec: the matching engine \<^verbatim>\<open>glob.sync\<close> of the glob package, which
  is not part of the repository. The spec (4.1) gives its contract: a pattern without glob
  metacharacters yields the pattern itself; otherwise the engine is asked for the matches,
  and when there are none and the no-match-returns-self policy (the option
  \<^verbatim>\<open>nonull\<close>) is requested, the literal pattern survives. What the engine finds, and
  what it takes for a metacharacter, stay parameters of the environment.
\<close>

definition glob :: "env \<Rightarrow> string \<Rightarrow> js_object \<Rightarrow> string list" where
  "glob E pattern opts =
     (if \<not> hasMagic E pattern then [pattern]
      else (case fsMatches E pattern opts of
              [] \<Rightarrow> (if truthy (opts ''nonull'') then [pattern] else [])
            | m # ms \<Rightarrow> m # ms))"

text \<open>
  Both builders return their result, the glob options as they leave them (the object is
  shared with the caller and updated in place) and their effects.
\<close>

definition globArgs ::
  "env \<Rightarrow> string list \<Rightarrow> js_object \<Rightarrow> string list \<times> js_object \<times> effect list" where
  "globArgs E as globOpts0 =
     (let globOpts = globOpts0(''nonull'' \<mapsto> JBool True) in
      (foldl (\<lambda>previous current. previous @ current) []
         (map (\<lambda>arg. glob E arg globOpts) as),
       globOpts,
       Log ''silly'' (OptsDump globOpts) # map (\<lambda>arg. Expand (Some arg) globOpts) as))"

definition globCount :: "env \<Rightarrow> string list \<Rightarrow> int" where
  "globCount E as = foldl (\<lambda>prev curr. prev + (if isGlob E curr False then 1 else 0)) 0 as"

definition multipleGlobs :: js_error where
  "multipleGlobs =
     \<lparr>name = ''Error'', message = ''each cannot accept multiple globs'', status = None\<rparr>"

definition globArgsEach ::
  "env \<Rightarrow> string list \<Rightarrow> js_object
     \<Rightarrow> (js_error + string list list) \<times> js_object \<times> effect list" where
  "globArgsEach E as globOpts0 =
     (let globOpts = globOpts0(''nonull'' \<mapsto> JBool True);
          logged = [Log ''silly'' (OptsDump globOpts)]
      in if globCount E as > 1 then (Inl multipleGlobs, globOpts, logged)
         else if globCount E as \<le> 0 then (Inr [as], globOpts, logged)
         else (let globIndex = findIndex (\<lambda>arg. isGlob E arg True) as in
               case jsIndex as globIndex of
                 None \<Rightarrow>
                   (Inl (globNoPattern E), globOpts, logged @ [Expand None globOpts])
               | Some pattern \<Rightarrow>
                   (Inr (map (\<lambda>v. jsAssign as globIndex v) (glob E pattern globOpts)),
                    globOpts, logged @ [Expand (Some pattern) globOpts])))"

section \<open>The process runner\<close>

text \<open>
  \<^verbatim>\<open>onetime(cb)\<close>: the wrapper calls \<open>cb\<close> on its first call only. The state is whether
  it has been called; the result is the new state and the calls of \<open>cb\<close> made.
\<close>

definition onetime :: "bool \<Rightarrow> 'a \<Rightarrow> bool \<times> 'a list" where
  "onetime called x = (if called then (True, []) else (True, [x]))"

text \<open>The \<^verbatim>\<open>'close'\<close> handler: the argument it passes to the callback.\<close>

definition onClose :: "int option \<Rightarrow> js_error option" where
  "onClose st =
     (case st of
        None \<Rightarrow> None
      | Some s \<Rightarrow>
          (if s \<noteq> 0
           then Some \<lparr>name = ''SpawnError'', message = ''Exit status '' @ show_int s,
                      status = Some s\<rparr>
           else None))"

fun handler :: "child_event \<Rightarrow> js_error option" where
  "handler (Error_event e) = Some e"
| "handler (Close_event st) = onClose st"

text \<open>The calls of the callback as the child's events arrive, in order.\<close>

fun deliver :: "bool \<Rightarrow> child_event list \<Rightarrow> js_error option list" where
  "deliver called [] = []"
| "deliver called (ev # evs) =
     (case onetime called (handler ev) of (called', calls) \<Rightarrow> calls @ deliver called' evs)"

text \<open>
  The command line handed to \<^verbatim>\<open>spawn\<close>: on \<^verbatim>\<open>win32\<close> the command is wrapped in a
  call of \<^verbatim>\<open>cmd /c\<close>, quoted, with \<^verbatim>\<open>windowsVerbatimArguments\<close> set; elsewhere it is
  passed as it is.
\<close>

definition commandLine ::
  "env \<Rightarrow> string option \<Rightarrow> string list \<Rightarrow> string option \<times> string list \<times> bool" where
  "commandLine E cmd0 args0 =
     (if platform E = ''win32''
      then (Some ''cmd'', [''/c'', [CHR 0x22] @ text_of cmd0 @ [CHR 0x22]] @ args0, True)
      else (cmd0, args0, False))"

text \<open>
  \<open>spawnCommand\<close> for the \<open>k\<close>-th child of the run. The result is \<open>Inl e\<close> when
  \<^verbatim>\<open>spawn\<close> threw \<open>e\<close> (no handler is registered then), and otherwise the calls of the
  completion callback.
\<close>

definition spawnCommand ::
  "env \<Rightarrow> nat \<Rightarrow> string option \<Rightarrow> string list
     \<Rightarrow> effect list \<times> (js_error + js_error option list)" where
  "spawnCommand E k cmd0 args0 =
     (case commandLine E cmd0 args0 of
        (c, as, win) \<Rightarrow>
          (case spawn E k c as win of
             Inl e \<Rightarrow> ([Log ''verbose'' (Running c as), Spawn c as win], Inl e)
           | Inr evs \<Rightarrow>
               ([Log ''verbose'' (Running c as), Spawn c as win]
                  @ map Callback (deliver False evs),
                Inr (deliver False evs))))"

section \<open>The orchestrator\<close>

text \<open>\<^verbatim>\<open>err.status || 1\<close>.\<close>

definition exitStatus :: "js_error \<Rightarrow> int" where
  "exitStatus err = (case status err of None \<Rightarrow> 1 | Some s \<Rightarrow> if s \<noteq> 0 then s else 1)"

text \<open>
  \<open>errorHandler\<close>, given the value of \<^verbatim>\<open>npmlog.level\<close> and of \<^verbatim>\<open>argv.$0\<close>.
\<close>

definition errorHandler ::
  "env \<Rightarrow> string option \<Rightarrow> jsval option \<Rightarrow> js_error option \<Rightarrow> effect list \<times> outcome" where
  "errorHandler E level prog err =
     (case err of
        None \<Rightarrow> ([Exit 0], Exited 0)
      | Some e \<Rightarrow>
          ((if name e \<noteq> ''SpawnError''
            then [Log ''error''
                    (if level = Some ''silly'' then ErrorObject e else ErrorMessage (message e)),
                  Log ''info'' (TryHelp prog),
                  Log ''verbose'' (VersionBanner (version E))]
            else [])
           @ [Exit (exitStatus e)],
           Exited (exitStatus e)))"

text \<open>
  The loop of \<open>mainEach\<close>: one child per argument list, each awaited before the next is
  started. The promise of a child is settled by the first call of its callback; it is
  rejected as well when \<^verbatim>\<open>spawn\<close> throws inside the executor, and it stays unsettled
  when the callback is never called, in which case the loop does not go on.
\<close>

datatype settled = Resolved | Rejected js_error | Unsettled

fun settle :: "js_error + js_error option list \<Rightarrow> settled" where
  "settle (Inl e) = Rejected e"
| "settle (Inr []) = Unsettled"
| "settle (Inr (None # calls)) = Resolved"
| "settle (Inr (Some e # calls)) = Rejected e"

fun runEach ::
  "env \<Rightarrow> nat \<Rightarrow> string option \<Rightarrow> string list list \<Rightarrow> effect list \<times> settled" where
  "runEach E k c [] = ([], Resolved)"
| "runEach E k c (v # vs) =
     (case spawnCommand E k c v of
        (eff, r) \<Rightarrow>
          (case settle r of
             Resolved \<Rightarrow> (case runEach E (Suc k) c vs of (eff', r') \<Rightarrow> (eff @ eff', r'))
           | Rejected e \<Rightarrow> (eff, Rejected e)
           | Unsettled \<Rightarrow> (eff, Unsettled)))"

text \<open>
  \<open>mainEach\<close>. When every child has succeeded the function returns without calling
  \<open>errorHandler\<close>, so \<^verbatim>\<open>exit\<close> is not called on that path.
\<close>

definition mainEach ::
  "env \<Rightarrow> string option \<Rightarrow> parsed_argv \<Rightarrow> effect list \<times> outcome" where
  "mainEach E level argv =
     (case globArgsEach E (args argv) (globOpts argv) of
        (Inl e, _, eff) \<Rightarrow>
          (case errorHandler E level (script argv) (Some e) of (eff', r) \<Rightarrow> (eff @ eff', r))
      | (Inr values, _, eff) \<Rightarrow>
          (case runEach E 0 (cmd argv) values of
             (eff', Resolved) \<Rightarrow> (eff @ eff', Returned)
           | (eff', Unsettled) \<Rightarrow> (eff @ eff', Pending)
           | (eff', Rejected e) \<Rightarrow>
               (case errorHandler E level (script argv) (Some e) of
                  (eff'', r) \<Rightarrow> (eff @ eff' @ eff'', r))))"

definition mainBulk ::
  "env \<Rightarrow> string option \<Rightarrow> parsed_argv \<Rightarrow> effect list \<times> outcome" where
  "mainBulk E level argv =
     (case globArgs E (args argv) (globOpts argv) of
        (expanded, _, eff) \<Rightarrow>
          (case spawnCommand E 0 (cmd argv) expanded of
             (eff', Inl e) \<Rightarrow> (eff @ eff', Uncaught e)
           | (eff', Inr []) \<Rightarrow> (eff @ eff', Pending)
           | (eff', Inr (err # _)) \<Rightarrow>
               (case errorHandler E level (script argv) err of
                  (eff'', r) \<Rightarrow> (eff @ eff' @ eff'', r))))"

definition main :: "env \<Rightarrow> string list \<Rightarrow> effect list \<times> outcome" where
  "main E argv0 =
     (case parseArgv E argv0 of
        (argv, level) \<Rightarrow>
          (if failure argv \<noteq> None then errorHandler E level (script argv) (failure argv)
           else if truthy (each argv) then mainEach E level argv
           else mainBulk E level argv))"

text \<open>
  The exit code of the process: the argument of \<^verbatim>\<open>exit\<close> when it was called; 0 when
  \<open>main\<close> and everything it started has finished without calling it (Node ends with
  code 0 once nothing is left to do); 1 after an uncaught exception; none while a child
  that never ends is awaited.
\<close>

fun processExitCode :: "outcome \<Rightarrow> int option" where
  "processExitCode (Exited c) = Some c"
| "processExitCode Returned = Some 0"
| "processExitCode (Uncaught e) = Some 1"
| "processExitCode Pending = None"

text \<open>Projections of a list of effects.\<close>

fun isLog :: "effect \<Rightarrow> bool" where
  "isLog (Log l p) = True"
| "isLog _ = False"

fun isExpand :: "effect \<Rightarrow> bool" where
  "isExpand (Expand p opts) = True"
| "isExpand _ = False"

fun isSpawn :: "effect \<Rightarrow> bool" where
  "isSpawn (Spawn c as w) = True"
| "isSpawn _ = False"

fun isCallback :: "effect \<Rightarrow> bool" where
  "isCallback (Callback err) = True"
| "isCallback _ = False"

definition unlogged :: "effect list \<Rightarrow> effect list" where
  "unlogged effs = filter (\<lambda>e. \<not> isLog e) effs"

text \<open>The call of \<^verbatim>\<open>spawn\<close> that \<open>spawnCommand\<close> makes for a command and its arguments.\<close>

definition spawnEffect :: "env \<Rightarrow> string option \<Rightarrow> string list \<Rightarrow> effect" where
  "spawnEffect E c v = (case commandLine E c v of (c', as', w) \<Rightarrow> Spawn c' as' w)"

text \<open>
  What \<^verbatim>\<open>spawn\<close> does for the \<open>k\<close>-th child of the run, for a command and its arguments
  as \<open>spawnCommand\<close> receives them: it throws, or it returns a child that emits the given
  events.
\<close>

definition childEvents ::
  "env \<Rightarrow> nat \<Rightarrow> string option \<Rightarrow> string list \<Rightarrow> js_error + child_event list" where
  "childEvents E k c v = (case commandLine E c v of (c', as', w) \<Rightarrow> spawn E k c' as' w)"

text \<open>
  The child succeeds: its first event is \<^verbatim>\<open>'close'\<close> with status 0, or with no status (a
  signal ended it; the handler of \<^verbatim>\<open>'close'\<close> reports no error then either).
\<close>

definition succeeds :: "env \<Rightarrow> nat \<Rightarrow> string option \<Rightarrow> string list \<Rightarrow> bool" where
  "succeeds E k c v =
     (case childEvents E k c v of
        Inl e \<Rightarrow> False
      | Inr [] \<Rightarrow> False
      | Inr (Error_event e # evs) \<Rightarrow> False
      | Inr (Close_event st # evs) \<Rightarrow> st = Some 0 \<or> st = None)"

text \<open>
  The child fails with the error \<open>e\<close>: \<^verbatim>\<open>spawn\<close> throws \<open>e\<close>, or the first event is
  \<^verbatim>\<open>'error'\<close> with \<open>e\<close>, or it is \<^verbatim>\<open>'close'\<close> with a nonzero status, \<open>e\<close> being the
  \<open>SpawnError\<close> that the handler builds for it.
\<close>

definition failsWith :: "env \<Rightarrow> nat \<Rightarrow> string option \<Rightarrow> string list \<Rightarrow> js_error \<Rightarrow> bool" where
  "failsWith E k c v e =
     (case childEvents E k c v of
        Inl e' \<Rightarrow> e = e'
      | Inr [] \<Rightarrow> False
      | Inr (Error_event e' # evs) \<Rightarrow> e = e'
      | Inr (Close_event st # evs) \<Rightarrow> onClose st = Some e)"

section \<open>A sample environment\<close>

text \<open>
  A concrete environment, used to evaluate the definitions on the examples of the
  specification. Its parser understands \<^verbatim>\<open>-e\<close>, \<^verbatim>\<open>-v\<close>, \<^verbatim>\<open>-n\<close> and \<^verbatim>\<open>--\<close>; its
  is-glob test takes every token with one of the characters \<^verbatim>\<open>*?{}()[]\<close> for a glob
  when it is not strict, and only a token with a \<^verbatim>\<open>*\<close> when it is, which is what
  is-glob answers on the tokens used below; its file system holds \<^verbatim>\<open>src/a.js\<close> and
  \<^verbatim>\<open>src/b.js\<close>; the command \<^verbatim>\<open>lint\<close> exits with status 3 on \<^verbatim>\<open>src/b.js\<close>, the command
  \<^verbatim>\<open>missing\<close> is not found (an \<^verbatim>\<open>'error'\<close> event, then \<^verbatim>\<open>'close'\<close>), \<^verbatim>\<open>spawn\<close> throws
  for the empty command, the command \<^verbatim>\<open>hang\<close> never ends, and every other child exits
  with status 0.
\<close>

definition sampleParsed :: "bool \<Rightarrow> int \<Rightarrow> bool \<Rightarrow> string list \<Rightarrow> js_object" where
  "sampleParsed e v n toks =
     [''_'' \<mapsto> JArr toks, ''$0'' \<mapsto> JStr ''globstar'',
      ''e'' \<mapsto> JBool e, ''each'' \<mapsto> JBool e,
      ''v'' \<mapsto> JNum v, ''verbose'' \<mapsto> JNum v,
      ''n'' \<mapsto> JBool n, ''node'' \<mapsto> JBool n]"

fun sampleFlags ::
  "bool \<Rightarrow> int \<Rightarrow> bool \<Rightarrow> string list \<Rightarrow> string option \<times> js_object" where
  "sampleFlags e v n [] = (Some ''COMMAND required'', sampleParsed e v n [])"
| "sampleFlags e v n (a # rest) =
     (if a = ''--''
      then (if rest = [] then (Some ''COMMAND required'', sampleParsed e v n [])
            else (None, sampleParsed e v n rest))
      else if a = ''-e'' then sampleFlags True v n rest
      else if a = ''-v'' then sampleFlags e (v + 1) n rest
      else if a = ''-n'' then sampleFlags e v True rest
      else (Some ''Unknown argument'', sampleParsed e v n []))"

definition sampleIsGlob :: "string \<Rightarrow> bool \<Rightarrow> bool" where
  "sampleIsGlob s strict =
     (if strict then CHR ''*'' \<in> set s else list_ex (\<lambda>c. c \<in> set ''*?{}()[]'') s)"

definition sampleMatches :: "string \<Rightarrow> js_object \<Rightarrow> string list" where
  "sampleMatches pattern opts =
     (if pattern = ''src/**/*.js'' then [''src/a.js'', ''src/b.js''] else [])"

definition sampleSpawn ::
  "nat \<Rightarrow> string option \<Rightarrow> string list \<Rightarrow> bool \<Rightarrow> js_error + child_event list" where
  "sampleSpawn k c as w =
     (if c = Some []
      then Inl \<lparr>name = ''TypeError'', message = ''The argument file cannot be empty'',
                 status = None\<rparr>
      else if c = Some ''hang'' then Inr []
      else if c = Some ''missing''
      then Inr [Error_event \<lparr>name = ''Error'', message = ''spawn missing ENOENT'',
                              status = None\<rparr>,
                Close_event (Some (- 2))]
      else if c = Some ''lint'' \<and> ''src/b.js'' \<in> set as then Inr [Close_event (Some 3)]
      else Inr [Close_event (Some 0)])"

definition sampleEnv :: env where
  "sampleEnv =
     \<lparr>yargs = sampleFlags False 0 False,
      scriptPath = ''globstar.js'',
      version = ''1.0.0'',
      platform = ''linux'',
      isGlob = sampleIsGlob,
      hasMagic = (\<lambda>s. sampleIsGlob s True),
      fsMatches = sampleMatches,
      globNoPattern = \<lparr>name = ''Error'', message = ''must provide pattern'', status = None\<rparr>,
      spawn = sampleSpawn\<rparr>"



section \<open>Auxiliary facts\<close>

lemmas sample_defs =
  sampleEnv_def sampleParsed_def sampleIsGlob_def sampleMatches_def sampleSpawn_def

lemmas parse_defs =
  parseArgv_def withDefaults_def setVerbose_def addNodeIgnore_def deleteFlags_def
  clampVerbose_def levelOf_def logLevels_def jsIndex_def nonGlobFlag_def map_add_def Let_def

lemmas build_defs =
  globArgs_def globArgsEach_def globCount_def findIndex_def jsIndex_def jsAssign_def glob_def
  Let_def

lemmas run_defs =
  spawnCommand_def commandLine_def onetime_def onClose_def show_int_def errorHandler_def
  exitStatus_def spawnEffect_def

lemmas main_defs = main_def mainEach_def mainBulk_def

lemmas child_defs = childEvents_def succeeds_def failsWith_def

lemma foldl_append_concat:
  "foldl (\<lambda>previous current. previous @ current) acc xss = acc @ concat xss"
  by (induction xss arbitrary: acc) simp_all

lemma glob_nonull_nonempty: "glob E pattern (opts(''nonull'' \<mapsto> JBool True)) \<noteq> []"
  by (simp add: glob_def split: list.splits)

lemma glob_nonull_literal:
  "\<not> hasMagic E pattern \<or> fsMatches E pattern (opts(''nonull'' \<mapsto> JBool True)) = []
   \<Longrightarrow> glob E pattern (opts(''nonull'' \<mapsto> JBool True)) = [pattern]"
  by (auto simp: glob_def)

lemma globArgsEach_nonempty: "fst (globArgsEach E as opts) = Inr vs \<Longrightarrow> vs \<noteq> []"
  using glob_nonull_nonempty [of E _ opts]
  by (auto simp: globArgsEach_def Let_def split: if_splits option.splits)

lemma deliver_called: "deliver True evs = []"
  by (induction evs) (simp_all add: onetime_def)

lemma deliver_first: "deliver False (ev # evs) = [handler ev]"
  by (simp add: onetime_def deliver_called)

lemma deliver_member:
  "x \<in> set (deliver called evs) \<Longrightarrow> \<exists>ev \<in> set evs. x = handler ev"
  by (cases called; cases evs) (simp_all add: deliver_called deliver_first del: deliver.simps(2))

lemma onClose_Some:
  "onClose st = Some e \<Longrightarrow>
     name e = ''SpawnError'' \<and>
     (\<exists>s. st = Some s \<and> s \<noteq> 0 \<and> status e = Some s \<and> exitStatus e = s)"
  by (auto simp: onClose_def exitStatus_def split: option.splits if_splits)

lemma globCount_from:
  "foldl (\<lambda>prev curr. prev + (if isGlob E curr False then 1 else 0)) n as
     = n + int (length (filter (\<lambda>t. isGlob E t False) as))"
  by (induction as arbitrary: n) simp_all

lemma globCount_length: "globCount E as = int (length (filter (\<lambda>t. isGlob E t False) as))"
  by (simp add: globCount_def globCount_from)

lemma main_each:
  "parseArgv E argv = (a, level) \<Longrightarrow> failure a = None \<Longrightarrow> truthy (each a) \<Longrightarrow>
   main E argv = mainEach E level a"
  by (simp add: main_def)

lemma spawnCommand_shape:
  "(\<exists>e. spawnCommand E k c v = ([Log ''verbose'' (Running (fst (commandLine E c v)) (fst (snd (commandLine E c v)))), spawnEffect E c v], Inl e))
   \<or> spawnCommand E k c v = ([Log ''verbose'' (Running (fst (commandLine E c v)) (fst (snd (commandLine E c v)))), spawnEffect E c v], Inr [])
   \<or> (\<exists>x. spawnCommand E k c v = ([Log ''verbose'' (Running (fst (commandLine E c v)) (fst (snd (commandLine E c v)))), spawnEffect E c v, Callback x], Inr [x]))"
proof -
  obtain c' as' w where cl: "commandLine E c v = (c', as', w)"
    by (cases "commandLine E c v") auto
  show ?thesis
  proof (cases "spawn E k c' as' w")
    case (Inl e)
    with cl show ?thesis by (simp add: spawnCommand_def spawnEffect_def)
  next
    case (Inr evs)
    with cl show ?thesis
      by (cases evs) (simp_all add: spawnCommand_def spawnEffect_def deliver_first del: deliver.simps(2))
  qed
qed


lemma spawnCommand_spawns:
  "filter isSpawn (fst (spawnCommand E k c v)) = [spawnEffect E c v]"
  using spawnCommand_shape [of E k c v]
  by (auto simp: spawnEffect_def split: prod.splits)

lemma runEach_resolved_step:
  "settle (snd (spawnCommand E k c v)) = Resolved \<Longrightarrow>
   runEach E k c (v # vs) =
     (fst (spawnCommand E k c v) @ fst (runEach E (Suc k) c vs), snd (runEach E (Suc k) c vs))"
  by (cases "spawnCommand E k c v"; cases "runEach E (Suc k) c vs") simp

lemma runEach_other_step:
  "settle (snd (spawnCommand E k c v)) \<noteq> Resolved \<Longrightarrow>
   runEach E k c (v # vs) = (fst (spawnCommand E k c v), settle (snd (spawnCommand E k c v)))"
  by (cases "spawnCommand E k c v"; cases "runEach E (Suc k) c vs")
    (simp split: settled.splits)

lemma runEach_all_resolved:
  assumes "\<forall>i<length vs. settle (snd (spawnCommand E (k + i) c (vs ! i))) = Resolved"
  shows "runEach E k c vs =
     (concat (map (\<lambda>i. fst (spawnCommand E (k + i) c (vs ! i))) [0..<length vs]), Resolved)"
  using assms
proof (induction vs arbitrary: k)
  case Nil
  then show ?case by simp
next
  case (Cons v vs)
  from Cons.prems have first: "settle (snd (spawnCommand E k c v)) = Resolved"
    by (metis add.right_neutral length_Cons nth_Cons_0 zero_less_Suc)
  have rest: "\<forall>i<length vs. settle (snd (spawnCommand E (Suc k + i) c (vs ! i))) = Resolved"
    using Cons.prems by (metis Suc_less_eq add_Suc_shift length_Cons nth_Cons_Suc)
  from Cons.IH [OF rest] first show ?case
    by (simp add: runEach_resolved_step map_upt_Suc del: runEach.simps upt_Suc)
qed

lemma globArgsEach_no_spawn:
  "filter isSpawn (snd (snd (globArgsEach E as opts))) = []"
  "filter isCallback (snd (snd (globArgsEach E as opts))) = []"
  by (simp_all add: globArgsEach_def Let_def split: option.splits)

lemma map_nth_take: "n \<le> length xs \<Longrightarrow> map (\<lambda>i. f (xs ! i)) [0..<n] = map f (take n xs)"
  by (simp add: list_eq_iff_nth_eq)

lemma children_spawns:
  "n \<le> length vs \<Longrightarrow>
   filter isSpawn (concat (map (\<lambda>i. fst (spawnCommand E (k + i) c (vs ! i))) [0..<n]))
     = map (spawnEffect E c) (take n vs)"
proof -
  assume n: "n \<le> length vs"
  have "filter isSpawn (concat (map (\<lambda>i. fst (spawnCommand E (k + i) c (vs ! i))) [0..<n]))
      = concat (map (\<lambda>i. [spawnEffect E c (vs ! i)]) [0..<n])"
    by (simp add: filter_concat comp_def spawnCommand_spawns)
  also have "\<dots> = map (\<lambda>i. spawnEffect E c (vs ! i)) [0..<n]"
    by (induction n) simp_all
  also have "\<dots> = map (spawnEffect E c) (take n vs)"
    using n by (rule map_nth_take)
  finally show ?thesis .
qed


lemma errorHandler_result:
  "snd (errorHandler E level prog err) = Exited (case err of None \<Rightarrow> 0 | Some e \<Rightarrow> exitStatus e)"
  "unlogged (fst (errorHandler E level prog err)) = [Exit (case err of None \<Rightarrow> 0 | Some e \<Rightarrow> exitStatus e)]"
  "filter isSpawn (fst (errorHandler E level prog err)) = []"
  "filter isCallback (fst (errorHandler E level prog err)) = []"
  by (auto simp: errorHandler_def unlogged_def split: option.splits)

lemma errorHandler_no_callback: "Callback x \<notin> set (fst (errorHandler E level prog err))"
  by (auto simp: errorHandler_def split: option.splits)

lemma globArgs_effects:
  "filter isSpawn (snd (snd (globArgs E as opts))) = []"
  "filter isCallback (snd (snd (globArgs E as opts))) = []"
  by (auto simp: globArgs_def Let_def filter_empty_conv)

lemma globArgs_no_callback: "Callback x \<notin> set (snd (snd (globArgs E as opts)))"
  by (auto simp: globArgs_def Let_def)

lemma globArgsEach_no_callback:
  "Callback x \<notin> set (snd (snd (globArgsEach E as opts)))"
  by (auto simp: globArgsEach_def Let_def split: option.splits)

lemma runEach_rejected:
  "Callback (Some e) \<in> set (fst (runEach E k c vs)) \<Longrightarrow> snd (runEach E k c vs) = Rejected e"
proof (induction vs arbitrary: k)
  case Nil
  then show ?case by simp
next
  case (Cons v vs)
  show ?case
  proof (cases "settle (snd (spawnCommand E k c v)) = Resolved")
    case True
    with spawnCommand_shape [of E k c v]
    have "Callback (Some e) \<notin> set (fst (spawnCommand E k c v))"
      by (auto simp: spawnEffect_def split: prod.splits elim!: settle.elims)
    with Cons.prems True have "Callback (Some e) \<in> set (fst (runEach E (Suc k) c vs))"
      by (simp add: runEach_resolved_step del: runEach.simps)
    from Cons.IH [OF this] True show ?thesis
      by (simp add: runEach_resolved_step del: runEach.simps)
  next
    case False
    with Cons.prems have "Callback (Some e) \<in> set (fst (spawnCommand E k c v))"
      by (simp add: runEach_other_step del: runEach.simps)
    with spawnCommand_shape [of E k c v]
    have "settle (snd (spawnCommand E k c v)) = Rejected e"
      by (auto simp: spawnEffect_def split: prod.splits)
    with False show ?thesis
      by (simp add: runEach_other_step del: runEach.simps)
  qed
qed

lemma settle_single:
  "settle (Inr [x]) = (case x of None \<Rightarrow> Resolved | Some e \<Rightarrow> Rejected e)"
  by (cases x) simp_all

lemma mainEach_callback_error:
  assumes "Callback (Some e) \<in> set (fst (mainEach E level a))"
  shows "snd (mainEach E level a) = Exited (exitStatus e)"
proof -
  obtain r g built where b: "globArgsEach E (args a) (globOpts a) = (r, g, built)"
    by (cases "globArgsEach E (args a) (globOpts a)") auto
  with globArgsEach_no_callback [of "Some e" E "args a" "globOpts a"]
  have nb: "Callback (Some e) \<notin> set built" by simp
  show ?thesis
  proof (cases r)
    case (Inl e')
    with assms b nb errorHandler_no_callback [of "Some e" E level "script a" "Some e'"]
    show ?thesis
      by (simp add: mainEach_def split_beta)
  next
    case (Inr vs)
    obtain eff' res where run: "runEach E 0 (cmd a) vs = (eff', res)"
      by (cases "runEach E 0 (cmd a) vs") auto
    from assms b Inr run nb errorHandler_no_callback [of "Some e" E level "script a"]
    have "Callback (Some e) \<in> set eff'"
      by (auto simp: mainEach_def split_beta split: settled.splits)
    with runEach_rejected [of e E 0 "cmd a" vs] run have "res = Rejected e" by simp
    with b Inr run show ?thesis
      by (simp add: mainEach_def errorHandler_result(1) split_beta)
  qed
qed

lemma mainBulk_callback_error:
  assumes "Callback (Some e) \<in> set (fst (mainBulk E level a))"
  shows "snd (mainBulk E level a) = Exited (exitStatus e)"
proof -
  obtain xs g built where b: "globArgs E (args a) (globOpts a) = (xs, g, built)"
    by (cases "globArgs E (args a) (globOpts a)") auto
  with globArgs_no_callback [of "Some e" E "args a" "globOpts a"]
  have nb: "Callback (Some e) \<notin> set built" by simp
  from spawnCommand_shape [of E 0 "cmd a" xs] assms b nb
    errorHandler_no_callback [of "Some e" E level "script a"]
  show ?thesis
    by (auto simp: mainBulk_def errorHandler_result(1) spawnEffect_def split_beta)
qed

lemma main_callback_error:
  assumes "Callback (Some e) \<in> set (fst (main E argv))"
  shows "snd (main E argv) = Exited (exitStatus e)"
  using assms mainEach_callback_error [of e E] mainBulk_callback_error [of e E]
    errorHandler_no_callback [of "Some e" E]
  by (auto simp: main_def split_beta split: if_splits)

lemma yargs_failure_exits_1:
  assumes "failure (fst (parseArgv E argv)) \<noteq> None"
  shows "snd (main E argv) = Exited 1"
proof -
  from assms obtain m where "failure (fst (parseArgv E argv))
      = Some \<lparr>name = ''YargsError'', message = m, status = None\<rparr>"
    by (auto simp: parseArgv_def Let_def split_beta)
  then show ?thesis
    by (simp add: main_def split_beta errorHandler_result(1) exitStatus_def)
qed

lemma builder_error_exit:
  assumes "failure (fst (parseArgv E argv)) = None"
    and "truthy (each (fst (parseArgv E argv)))"
    and "fst (globArgsEach E (args (fst (parseArgv E argv))) (globOpts (fst (parseArgv E argv))))
       = Inl e"
  shows "snd (main E argv) = Exited (exitStatus e)"
  using assms
  by (simp add: main_def mainEach_def split_beta errorHandler_result(1))

lemma exitStatus_cases:
  "status e = Some s \<Longrightarrow> s \<noteq> 0 \<Longrightarrow> exitStatus e = s"
  "status e = None \<Longrightarrow> exitStatus e = 1"
  by (simp_all add: exitStatus_def)

lemma translated_agree:
  assumes "\<forall>k. k \<noteq> ''verbose'' \<and> k \<noteq> ''v'' \<longrightarrow> p1 k = p2 k"
    and "k \<noteq> ''verbose''" and "k \<noteq> ''v''"
  shows "addNodeIgnore (setVerbose (withDefaults E p1)) k
       = addNodeIgnore (setVerbose (withDefaults E p2)) k"
proof -
  have same: "\<And>j. j \<noteq> ''verbose'' \<Longrightarrow> j \<noteq> ''v'' \<Longrightarrow>
      setVerbose (withDefaults E p1) j = setVerbose (withDefaults E p2) j"
    using assms(1) by (simp add: setVerbose_def withDefaults_def map_add_def)
  have "setVerbose (withDefaults E p1) ''node'' = setVerbose (withDefaults E p2) ''node''"
    and "setVerbose (withDefaults E p1) ''ignore'' = setVerbose (withDefaults E p2) ''ignore''"
    by (simp_all add: same)
  with same [OF assms(2,3)] show ?thesis
    by (simp add: addNodeIgnore_def)
qed

lemma parse_verbosity:
  assumes "fst (yargs E argv1) = fst (yargs E argv2)"
    and "\<forall>k. k \<noteq> ''verbose'' \<and> k \<noteq> ''v'' \<longrightarrow> snd (yargs E argv1) k = snd (yargs E argv2) k"
  shows "failure (fst (parseArgv E argv1)) = failure (fst (parseArgv E argv2))"
    and "each (fst (parseArgv E argv1)) = each (fst (parseArgv E argv2))"
    and "cmd (fst (parseArgv E argv1)) = cmd (fst (parseArgv E argv2))"
    and "args (fst (parseArgv E argv1)) = args (fst (parseArgv E argv2))"
    and "script (fst (parseArgv E argv1)) = script (fst (parseArgv E argv2))"
    and "globOpts (fst (parseArgv E argv1)) = globOpts (fst (parseArgv E argv2))"
proof -
  note agree = translated_agree [OF assms(2), of _ E]
  show "failure (fst (parseArgv E argv1)) = failure (fst (parseArgv E argv2))"
    using assms(1) by (simp add: parseArgv_def Let_def split_beta)
  have e: "addNodeIgnore (setVerbose (withDefaults E (snd (yargs E argv1)))) ''each''
      = addNodeIgnore (setVerbose (withDefaults E (snd (yargs E argv2)))) ''each''"
    by (rule agree) simp_all
  have p: "addNodeIgnore (setVerbose (withDefaults E (snd (yargs E argv1)))) ''_''
      = addNodeIgnore (setVerbose (withDefaults E (snd (yargs E argv2)))) ''_''"
    by (rule agree) simp_all
  have s: "addNodeIgnore (setVerbose (withDefaults E (snd (yargs E argv1)))) ''$0''
      = addNodeIgnore (setVerbose (withDefaults E (snd (yargs E argv2)))) ''$0''"
    by (rule agree) simp_all
  show "each (fst (parseArgv E argv1)) = each (fst (parseArgv E argv2))"
    using e by (simp add: parseArgv_def Let_def split_beta)
  show "cmd (fst (parseArgv E argv1)) = cmd (fst (parseArgv E argv2))"
    using p by (simp add: parseArgv_def Let_def split_beta)
  show "args (fst (parseArgv E argv1)) = args (fst (parseArgv E argv2))"
    using p by (simp add: parseArgv_def Let_def split_beta)
  show "script (fst (parseArgv E argv1)) = script (fst (parseArgv E argv2))"
    using s by (simp add: parseArgv_def Let_def split_beta)
  have "deleteFlags (addNodeIgnore (setVerbose (withDefaults E (snd (yargs E argv1)))))
      = deleteFlags (addNodeIgnore (setVerbose (withDefaults E (snd (yargs E argv2)))))"
  proof
    fix k
    show "deleteFlags (addNodeIgnore (setVerbose (withDefaults E (snd (yargs E argv1))))) k
      = deleteFlags (addNodeIgnore (setVerbose (withDefaults E (snd (yargs E argv2))))) k"
    proof (cases "nonGlobFlag k")
      case True
      then show ?thesis by (simp add: deleteFlags_def)
    next
      case False
      then have "k \<noteq> ''verbose''" "k \<noteq> ''v''"
        by (auto simp: nonGlobFlag_def)
      from agree [OF this] False show ?thesis by (simp add: deleteFlags_def)
    qed
  qed
  then show "globOpts (fst (parseArgv E argv1)) = globOpts (fst (parseArgv E argv2))"
    by (simp add: parseArgv_def Let_def split_beta)
qed

lemma mainEach_level:
  assumes "cmd a1 = cmd a2" "args a1 = args a2" "script a1 = script a2" "globOpts a1 = globOpts a2"
  shows "unlogged (fst (mainEach E l1 a1)) = unlogged (fst (mainEach E l2 a2))
     \<and> snd (mainEach E l1 a1) = snd (mainEach E l2 a2)"
proof -
  obtain r g built where b: "globArgsEach E (args a2) (globOpts a2) = (r, g, built)"
    by (cases "globArgsEach E (args a2) (globOpts a2)") auto
  show ?thesis
  proof (cases r)
    case (Inl e)
    with b assms show ?thesis
      by (simp add: mainEach_def split_beta errorHandler_result(1))
        (simp add: unlogged_def errorHandler_result(2) [unfolded unlogged_def])
  next
    case (Inr vs)
    with b assms show ?thesis
      by (cases "snd (runEach E 0 (cmd a2) vs)")
        (simp_all add: mainEach_def split_beta errorHandler_result(1) unlogged_def
          errorHandler_result(2) [unfolded unlogged_def])
  qed
qed

lemma mainBulk_level:
  assumes "cmd a1 = cmd a2" "args a1 = args a2" "script a1 = script a2" "globOpts a1 = globOpts a2"
  shows "unlogged (fst (mainBulk E l1 a1)) = unlogged (fst (mainBulk E l2 a2))
     \<and> snd (mainBulk E l1 a1) = snd (mainBulk E l2 a2)"
  using assms
  by (simp add: mainBulk_def split_beta errorHandler_result(1) unlogged_def
        errorHandler_result(2) [unfolded unlogged_def]
      split: sum.splits list.splits)

lemma spawns_of_unlogged: "filter isSpawn effs = filter isSpawn (unlogged effs)"
proof -
  have "\<And>x. isSpawn x \<Longrightarrow> \<not> isLog x"
    by (erule isSpawn.elims) simp
  then show ?thesis
    by (auto simp: unlogged_def intro: filter_cong)
qed

lemma spawnCommand_no_expand: "Expand p g \<notin> set (fst (spawnCommand E k c v))"
  using spawnCommand_shape [of E k c v] by (auto simp: spawnEffect_def split: prod.splits)

lemma runEach_no_expand: "Expand p g \<notin> set (fst (runEach E k c vs))"
proof (induction vs arbitrary: k)
  case Nil
  then show ?case by simp
next
  case (Cons v vs)
  then show ?case
    by (cases "settle (snd (spawnCommand E k c v)) = Resolved")
      (simp_all add: runEach_resolved_step runEach_other_step spawnCommand_no_expand
        del: runEach.simps)
qed

lemma errorHandler_no_expand: "Expand p g \<notin> set (fst (errorHandler E level prog err))"
  by (auto simp: errorHandler_def split: option.splits)

lemma globArgs_expand:
  "Expand p g \<in> set (snd (snd (globArgs E as opts))) \<Longrightarrow> g = opts(''nonull'' \<mapsto> JBool True)"
  by (auto simp: globArgs_def Let_def)

lemma globArgsEach_expand:
  "Expand p g \<in> set (snd (snd (globArgsEach E as opts))) \<Longrightarrow>
   g = opts(''nonull'' \<mapsto> JBool True)"
  by (auto simp: globArgsEach_def Let_def split: if_splits option.splits)

lemma main_expand:
  assumes "Expand p g \<in> set (fst (main E argv))"
  shows "g = (globOpts (fst (parseArgv E argv)))(''nonull'' \<mapsto> JBool True)"
proof -
  let ?a = "fst (parseArgv E argv)"
  let ?l = "snd (parseArgv E argv)"
  from assms errorHandler_no_expand [of p g E]
  have "Expand p g \<in> set (fst (mainEach E ?l ?a)) \<or> Expand p g \<in> set (fst (mainBulk E ?l ?a))"
    by (auto simp: main_def split_beta split: if_splits)
  then show ?thesis
  proof
    assume "Expand p g \<in> set (fst (mainEach E ?l ?a))"
    with errorHandler_no_expand [of p g E] runEach_no_expand [of p g E]
    have "Expand p g \<in> set (snd (snd (globArgsEach E (args ?a) (globOpts ?a))))"
      by (auto simp: mainEach_def split_beta split: sum.splits settled.splits)
    then show ?thesis by (rule globArgsEach_expand)
  next
    assume "Expand p g \<in> set (fst (mainBulk E ?l ?a))"
    with errorHandler_no_expand [of p g E] spawnCommand_no_expand [of p g E]
    have "Expand p g \<in> set (snd (snd (globArgs E (args ?a) (globOpts ?a))))"
      by (auto simp: mainBulk_def split_beta split: sum.splits list.splits)
    then show ?thesis by (rule globArgs_expand)
  qed
qed

lemma spawnCommand_result:
  "snd (spawnCommand E k c v) =
     (case childEvents E k c v of
        Inl e \<Rightarrow> Inl e
      | Inr [] \<Rightarrow> Inr []
      | Inr (ev # evs) \<Rightarrow> Inr [handler ev])"
  by (simp add: spawnCommand_def childEvents_def split_beta deliver_first
      del: deliver.simps(2) split: sum.splits list.splits)

lemma settle_succeeds: "settle (snd (spawnCommand E k c v)) = Resolved \<longleftrightarrow> succeeds E k c v"
  by (auto simp: spawnCommand_result succeeds_def onClose_def settle_single
      split: sum.splits list.splits child_event.splits option.splits if_splits)

lemma settle_failsWith:
  "settle (snd (spawnCommand E k c v)) = Rejected e \<longleftrightarrow> failsWith E k c v e"
  by (auto simp: spawnCommand_result failsWith_def onClose_def settle_single
      split: sum.splits list.splits child_event.splits option.splits if_splits)

lemma settle_unsettled:
  "settle (snd (spawnCommand E k c v)) = Unsettled \<longleftrightarrow> childEvents E k c v = Inr []"
  by (auto simp: spawnCommand_result settle_single
      split: sum.splits list.splits child_event.splits option.splits if_splits)

lemma runEach_halts:
  assumes "j < length vs"
    and "\<forall>i<j. settle (snd (spawnCommand E (k + i) c (vs ! i))) = Resolved"
    and "settle (snd (spawnCommand E (k + j) c (vs ! j))) \<noteq> Resolved"
  shows "runEach E k c vs =
     (concat (map (\<lambda>i. fst (spawnCommand E (k + i) c (vs ! i))) [0..<Suc j]),
      settle (snd (spawnCommand E (k + j) c (vs ! j))))"
  using assms
proof (induction vs arbitrary: k j)
  case Nil
  then show ?case by simp
next
  case (Cons v vs)
  show ?case
  proof (cases j)
    case 0
    with Cons.prems(3) have "settle (snd (spawnCommand E k c v)) \<noteq> Resolved" by simp
    with 0 show ?thesis by (simp add: runEach_other_step del: runEach.simps)
  next
    case (Suc j')
    with Cons.prems(2) have first: "settle (snd (spawnCommand E k c v)) = Resolved"
      by (metis add.right_neutral nth_Cons_0 zero_less_Suc)
    have rest: "\<forall>i<j'. settle (snd (spawnCommand E (Suc k + i) c (vs ! i))) = Resolved"
      using Cons.prems(2) Suc by (metis Suc_less_eq add_Suc_shift nth_Cons_Suc)
    have last: "settle (snd (spawnCommand E (Suc k + j') c (vs ! j'))) \<noteq> Resolved"
      using Cons.prems(3) Suc by simp
    from Cons.prems(1) Suc have "j' < length vs" by simp
    from Cons.IH [OF this rest last]
    have "runEach E (Suc k) c vs =
      (concat (map (\<lambda>i. fst (spawnCommand E (Suc k + i) c (vs ! i))) [0..<Suc j']),
       settle (snd (spawnCommand E (Suc k + j') c (vs ! j'))))" .
    with first Suc show ?thesis
      by (simp add: runEach_resolved_step map_upt_Suc del: runEach.simps upt_Suc)
  qed
qed

lemma mainEach_after_failure:
  assumes built: "globArgsEach E (args a) (globOpts a) = (Inr vs, g, built)"
    and j: "j < length vs"
    and ok: "\<forall>i<j. succeeds E i (cmd a) (vs ! i)"
    and bad: "failsWith E j (cmd a) (vs ! j) e"
  shows "fst (mainEach E level a) =
       built @ concat (map (\<lambda>i. fst (spawnCommand E i (cmd a) (vs ! i))) [0..<Suc j])
         @ fst (errorHandler E level (script a) (Some e))"
    and "filter isSpawn (fst (mainEach E level a))
       = map (spawnEffect E (cmd a)) (take (Suc j) vs)"
    and "snd (mainEach E level a) = Exited (exitStatus e)"
proof -
  from ok have ok': "\<forall>i<j. settle (snd (spawnCommand E (0 + i) (cmd a) (vs ! i))) = Resolved"
    by (simp add: settle_succeeds)
  from bad have rej: "settle (snd (spawnCommand E (0 + j) (cmd a) (vs ! j))) = Rejected e"
    by (simp add: settle_failsWith)
  then have "settle (snd (spawnCommand E (0 + j) (cmd a) (vs ! j))) \<noteq> Resolved" by simp
  from runEach_halts [OF j ok' this] rej
  have run: "runEach E 0 (cmd a) vs =
      (concat (map (\<lambda>i. fst (spawnCommand E i (cmd a) (vs ! i))) [0..<Suc j]), Rejected e)"
    by simp
  with built show eff: "fst (mainEach E level a) =
       built @ concat (map (\<lambda>i. fst (spawnCommand E i (cmd a) (vs ! i))) [0..<Suc j])
         @ fst (errorHandler E level (script a) (Some e))"
    by (simp add: mainEach_def split_beta del: upt_Suc)
  from run built show "snd (mainEach E level a) = Exited (exitStatus e)"
    by (simp add: mainEach_def split_beta errorHandler_result(1) del: upt_Suc)
  from globArgsEach_no_spawn(1) [of E "args a" "globOpts a"] built
  have "filter isSpawn built = []" by simp
  with eff j children_spawns [of "Suc j" vs E 0 "cmd a"]
  show "filter isSpawn (fst (mainEach E level a))
       = map (spawnEffect E (cmd a)) (take (Suc j) vs)"
    by (simp add: errorHandler_result(3) del: upt_Suc)
qed

lemma mainEach_all_succeed:
  assumes built: "globArgsEach E (args a) (globOpts a) = (Inr vs, g, built)"
    and ok: "\<forall>i<length vs. succeeds E i (cmd a) (vs ! i)"
  shows "fst (mainEach E level a) =
       built @ concat (map (\<lambda>i. fst (spawnCommand E i (cmd a) (vs ! i))) [0..<length vs])"
    and "filter isSpawn (fst (mainEach E level a)) = map (spawnEffect E (cmd a)) vs"
    and "snd (mainEach E level a) = Returned"
proof -
  from ok have "\<forall>i<length vs. settle (snd (spawnCommand E (0 + i) (cmd a) (vs ! i))) = Resolved"
    by (simp add: settle_succeeds)
  from runEach_all_resolved [OF this]
  have run: "runEach E 0 (cmd a) vs =
      (concat (map (\<lambda>i. fst (spawnCommand E i (cmd a) (vs ! i))) [0..<length vs]), Resolved)"
    by simp
  with built show eff: "fst (mainEach E level a) =
       built @ concat (map (\<lambda>i. fst (spawnCommand E i (cmd a) (vs ! i))) [0..<length vs])"
    by (simp add: mainEach_def)
  from run built show "snd (mainEach E level a) = Returned"
    by (simp add: mainEach_def)
  from globArgsEach_no_spawn(1) [of E "args a" "globOpts a"] built
  have "filter isSpawn built = []" by simp
  with eff children_spawns [of "length vs" vs E 0 "cmd a"]
  show "filter isSpawn (fst (mainEach E level a)) = map (spawnEffect E (cmd a)) vs"
    by simp
qed

lemma failsWith_close:
  "childEvents E k c v = Inr (Close_event (Some s) # evs) \<Longrightarrow> s \<noteq> 0 \<Longrightarrow>
   failsWith E k c v (the (onClose (Some s)))"
  by (simp add: failsWith_def onClose_def)

lemma child_cases:
  "succeeds E k c v \<or> (\<exists>e. failsWith E k c v e) \<or> childEvents E k c v = Inr []"
  by (auto simp: succeeds_def failsWith_def onClose_def
      split: sum.splits list.splits child_event.splits option.splits)

lemma mainBulk_outcome:
  "snd (mainBulk E level a) =
     (case childEvents E 0 (cmd a) (fst (globArgs E (args a) (globOpts a))) of
        Inl e \<Rightarrow> Uncaught e
      | Inr [] \<Rightarrow> Pending
      | Inr (ev # evs) \<Rightarrow> Exited (case handler ev of None \<Rightarrow> 0 | Some e \<Rightarrow> exitStatus e))"
proof -
  obtain xs g built where b: "globArgs E (args a) (globOpts a) = (xs, g, built)"
    by (cases "globArgs E (args a) (globOpts a)") auto
  obtain eff r where sc: "spawnCommand E 0 (cmd a) xs = (eff, r)"
    by (cases "spawnCommand E 0 (cmd a) xs") auto
  with spawnCommand_result [of E 0 "cmd a" xs]
  have r: "r = (case childEvents E 0 (cmd a) xs of
        Inl e \<Rightarrow> Inl e | Inr [] \<Rightarrow> Inr [] | Inr (ev # evs) \<Rightarrow> Inr [handler ev])"
    by simp
  show ?thesis
    by (simp add: mainBulk_def b sc r split_beta errorHandler_result(1)
        split: sum.splits list.splits)
qed

lemma mainEach_pending:
  assumes built: "globArgsEach E (args a) (globOpts a) = (Inr vs, g, built)"
    and j: "j < length vs"
    and ok: "\<forall>i<j. succeeds E i (cmd a) (vs ! i)"
    and never: "childEvents E j (cmd a) (vs ! j) = Inr []"
  shows "snd (mainEach E level a) = Pending"
proof -
  from ok have ok': "\<forall>i<j. settle (snd (spawnCommand E (0 + i) (cmd a) (vs ! i))) = Resolved"
    by (simp add: settle_succeeds)
  from never have un: "settle (snd (spawnCommand E (0 + j) (cmd a) (vs ! j))) = Unsettled"
    by (simp add: settle_unsettled)
  then have "settle (snd (spawnCommand E (0 + j) (cmd a) (vs ! j))) \<noteq> Resolved" by simp
  from runEach_halts [OF j ok' this] un
  have "snd (runEach E 0 (cmd a) vs) = Unsettled" by simp
  with built show ?thesis
    by (simp add: mainEach_def split_beta)
qed

lemma main_mode:
  "failure (fst (parseArgv E argv)) = None \<Longrightarrow> truthy (each (fst (parseArgv E argv))) \<Longrightarrow>
   main E argv = mainEach E (snd (parseArgv E argv)) (fst (parseArgv E argv))"
  "failure (fst (parseArgv E argv)) = None \<Longrightarrow> \<not> truthy (each (fst (parseArgv E argv))) \<Longrightarrow>
   main E argv = mainBulk E (snd (parseArgv E argv)) (fst (parseArgv E argv))"
  by (simp_all add: main_def split_beta)

text \<open>
  What \<open>globArgsEach\<close> returns when the two is-glob tests agree on the tokens: the tokens
  themselves when none is a glob, and one copy of the tokens per match of the one glob,
  with the match in the place of the pattern, in the order of the matches.
\<close>

lemma findIndexFrom_first:
  "i < length xs \<Longrightarrow> p (xs ! i) \<Longrightarrow> \<forall>j<i. \<not> p (xs ! j) \<Longrightarrow>
   findIndexFrom k p xs = k + int i"
proof (induction xs arbitrary: i k)
  case Nil
  then show ?case by simp
next
  case (Cons x xs)
  show ?case
  proof (cases i)
    case 0
    with Cons.prems show ?thesis by simp
  next
    case (Suc i')
    with Cons.prems have "\<not> p x" by auto
    moreover from Cons.prems Suc have "i' < length xs" "p (xs ! i')" "\<forall>j<i'. \<not> p (xs ! j)"
      by auto
    from Cons.IH [OF this, of "k + 1"] have "findIndexFrom (k + 1) p xs = k + 1 + int i'" .
    ultimately show ?thesis using Suc by simp
  qed
qed

lemma filter_unique:
  assumes "i < length xs" and "p (xs ! i)" and "\<forall>j<length xs. j \<noteq> i \<longrightarrow> \<not> p (xs ! j)"
  shows "filter p xs = [xs ! i]"
proof -
  have xs: "xs = take i xs @ xs ! i # drop (Suc i) xs"
    using assms(1) by (rule id_take_nth_drop)
  have "filter p (take i xs) = []"
    using assms(1,3) by (auto simp: filter_empty_conv in_set_conv_nth)
  moreover have "filter p (drop (Suc i) xs) = []"
    using assms(1,3) by (auto simp: filter_empty_conv in_set_conv_nth)
  ultimately have "filter p (take i xs @ xs ! i # drop (Suc i) xs) = [xs ! i]"
    using assms(2) by simp
  with xs show ?thesis by simp
qed

lemma globArgsEach_no_glob:
  assumes "filter (\<lambda>t. isGlob E t False) as = []"
  shows "fst (globArgsEach E as opts) = Inr [as]"
  using assms by (simp add: globArgsEach_def Let_def globCount_length)

lemma globArgsEach_one_glob:
  assumes "i < length as"
    and "isGlob E (as ! i) False"
    and "\<forall>j<length as. j \<noteq> i \<longrightarrow> \<not> isGlob E (as ! j) False"
    and "\<forall>j<length as. isGlob E (as ! j) True = isGlob E (as ! j) False"
  shows "fst (globArgsEach E as opts) =
     Inr (map (\<lambda>m. as[i := m]) (glob E (as ! i) (opts(''nonull'' \<mapsto> JBool True))))"
proof -
  from filter_unique [of i as "\<lambda>t. isGlob E t False", OF assms(1,2,3)]
  have count: "globCount E as = 1"
    by (simp add: globCount_length)
  have "findIndexFrom 0 (\<lambda>arg. isGlob E arg True) as = 0 + int i"
    using assms by (intro findIndexFrom_first) auto
  then have idx: "findIndex (\<lambda>arg. isGlob E arg True) as = int i"
    by (simp add: findIndex_def)
  with count assms(1) show ?thesis
    by (simp add: globArgsEach_def Let_def jsIndex_def jsAssign_def)
qed

section \<open>Bulk mode: the argument list\<close>

text \<open>
  Claim C6. In bulk mode the built argument list is the concatenation, in the order of the
  input tokens, of the expansion of each token (the engine being called with the option
  \<^verbatim>\<open>nonull\<close> set); its length is the sum of the lengths of the expansions, and the
  matches of one token stay together, in the order the engine gave them.
\<close>

theorem globArgs_concatenates:
  "fst (globArgs E as opts) =
     concat (map (\<lambda>arg. glob E arg (opts(''nonull'' \<mapsto> JBool True))) as)
   \<and> length (fst (globArgs E as opts)) =
     sum_list (map (\<lambda>arg. length (glob E arg (opts(''nonull'' \<mapsto> JBool True)))) as)"
  by (simp add: globArgs_def Let_def foldl_append_concat length_concat comp_def)

theorem globArgs_concatenates_witness:
  "fst (globArgs sampleEnv [''-x'', ''src/**/*.js'', ''*.md''] Map.empty) =
     [''-x'', ''src/a.js'', ''src/b.js'', ''*.md'']
   \<and> length (fst (globArgs sampleEnv [''-x'', ''src/**/*.js'', ''*.md''] Map.empty)) = 4"
  using globArgs_concatenates [of sampleEnv "[''-x'', ''src/**/*.js'', ''*.md'']" Map.empty]
  by (simp add: glob_def sampleEnv_def sampleIsGlob_def sampleMatches_def)

section \<open>Expansion is never empty\<close>

text \<open>
  Claim C5. Whatever glob options the user passed, the expansion of a token by the
  builders is never empty: a token without glob metacharacters expands to the token
  itself, and so does a pattern that matches nothing in the file system. In each mode a
  successful result holds at least one argument list. The builders force the option
  \<^verbatim>\<open>nonull\<close> before they call the engine; the engine's contract is taken from the
  specification.
\<close>

theorem expansion_never_empty:
  "fst (globArgs E [token] opts) \<noteq> []
   \<and> (\<not> hasMagic E token \<longrightarrow> fst (globArgs E [token] opts) = [token])
   \<and> (fsMatches E token (opts(''nonull'' \<mapsto> JBool True)) = []
        \<longrightarrow> fst (globArgs E [token] opts) = [token])
   \<and> (\<forall>vs. fst (globArgsEach E as opts) = Inr vs \<longrightarrow> vs \<noteq> [])"
  using glob_nonull_nonempty [of E token opts] glob_nonull_literal [of E token opts]
    globArgsEach_nonempty [of E as opts]
  by (simp add: globArgs_def Let_def)

theorem expansion_never_empty_witness:
  "\<not> hasMagic sampleEnv ''README''
   \<and> fst (globArgs sampleEnv [''README''] [''nonull'' \<mapsto> JBool False]) = [''README'']
   \<and> hasMagic sampleEnv ''*.txt''
   \<and> fsMatches sampleEnv ''*.txt'' [''nonull'' \<mapsto> JBool True] = []
   \<and> fst (globArgs sampleEnv [''*.txt''] [''nonull'' \<mapsto> JBool False]) = [''*.txt'']
   \<and> fst (globArgsEach sampleEnv [''cat'', ''*.txt''] [''nonull'' \<mapsto> JBool False])
       = Inr [[''cat'', ''*.txt'']]"
  using expansion_never_empty
      [of sampleEnv "''README''" "[''nonull'' \<mapsto> JBool False]" "[''cat'', ''*.txt'']"]
    expansion_never_empty
      [of sampleEnv "''*.txt''" "[''nonull'' \<mapsto> JBool False]" "[''cat'', ''*.txt'']"]
  by (simp add: sampleEnv_def sampleIsGlob_def sampleMatches_def globArgsEach_def globCount_def
      findIndex_def jsIndex_def jsAssign_def glob_def Let_def)

section \<open>The process runner reports once\<close>

text \<open>
  Claim C7, as amended. For every call of the process runner in which \<^verbatim>\<open>spawn\<close> returns a
  child that emits at least one event, the completion callback is invoked exactly once,
  with what the handler of the first event passes: the error of an \<^verbatim>\<open>'error'\<close> event, a
  \<open>SpawnError\<close> for a nonzero exit status, nothing for a zero one. Later events, such as
  the \<^verbatim>\<open>'close'\<close> that follows an \<^verbatim>\<open>'error'\<close>, call it no more. When \<^verbatim>\<open>spawn\<close> itself
  throws, no handler has been registered: the callback is not invoked, and the exception
  goes to the caller.
\<close>

theorem spawnCommand_calls_back_once_unless_spawn_throws:
  "(\<forall>ev evs. childEvents E k c as = Inr (ev # evs) \<longrightarrow>
       snd (spawnCommand E k c as) = Inr [handler ev]
       \<and> filter isCallback (fst (spawnCommand E k c as)) = [Callback (handler ev)])
   \<and> (\<forall>e. childEvents E k c as = Inl e \<longrightarrow>
       snd (spawnCommand E k c as) = Inl e
       \<and> filter isCallback (fst (spawnCommand E k c as)) = [])"
  by (auto simp: childEvents_def spawnCommand_def deliver_first split_beta
      simp del: deliver.simps(2))

theorem spawnCommand_calls_back_once_unless_spawn_throws_witness:
  "childEvents sampleEnv 0 (Some ''missing'') [''x''] =
       Inr [Error_event \<lparr>name = ''Error'', message = ''spawn missing ENOENT'', status = None\<rparr>,
            Close_event (Some (- 2))]
   \<and> snd (spawnCommand sampleEnv 0 (Some ''missing'') [''x'']) =
       Inr [Some \<lparr>name = ''Error'', message = ''spawn missing ENOENT'', status = None\<rparr>]
   \<and> filter isCallback (fst (spawnCommand sampleEnv 0 (Some ''missing'') [''x''])) =
       [Callback (Some \<lparr>name = ''Error'', message = ''spawn missing ENOENT'', status = None\<rparr>)]
   \<and> childEvents sampleEnv 0 (Some []) [] =
       Inl \<lparr>name = ''TypeError'', message = ''The argument file cannot be empty'', status = None\<rparr>
   \<and> snd (spawnCommand sampleEnv 0 (Some []) []) =
       Inl \<lparr>name = ''TypeError'', message = ''The argument file cannot be empty'', status = None\<rparr>
   \<and> filter isCallback (fst (spawnCommand sampleEnv 0 (Some []) [])) = []"
proof -
  let ?enoent = "\<lparr>name = ''Error'', message = ''spawn missing ENOENT'', status = None\<rparr>"
  let ?empty = "\<lparr>name = ''TypeError'', message = ''The argument file cannot be empty'',
      status = None\<rparr>"
  have ev: "childEvents sampleEnv 0 (Some ''missing'') [''x''] =
      Inr (Error_event ?enoent # [Close_event (Some (- 2))])"
    by (simp add: child_defs commandLine_def sample_defs)
  have thrown: "childEvents sampleEnv 0 (Some []) [] = Inl ?empty"
    by (simp add: child_defs commandLine_def sample_defs)
  note once = spawnCommand_calls_back_once_unless_spawn_throws
    [of sampleEnv 0 "Some ''missing''" "[''x'']", THEN conjunct1, rule_format, OF ev]
  note none = spawnCommand_calls_back_once_unless_spawn_throws
    [of sampleEnv 0 "Some []" "[]", THEN conjunct2, rule_format, OF thrown]
  from ev thrown once none show ?thesis by simp
qed

text \<open>
  The claim as it was stated, that the callback is invoked exactly once for every call,
  fails when \<^verbatim>\<open>spawn\<close> throws, as it does for the empty command of
  \<^verbatim>\<open>globstar -- ""\<close>: the callback is never invoked, and in bulk mode the exception
  leaves \<open>main\<close> uncaught.
\<close>

theorem spawnCommand_no_callback_counterexample:
  "childEvents sampleEnv 0 (Some []) [] =
       Inl \<lparr>name = ''TypeError'', message = ''The argument file cannot be empty'', status = None\<rparr>
   \<and> filter isCallback (fst (spawnCommand sampleEnv 0 (Some []) [])) = []
   \<and> length (filter isCallback (fst (spawnCommand sampleEnv 0 (Some []) []))) \<noteq> 1
   \<and> filter isCallback (fst (main sampleEnv [''--'', []])) = []
   \<and> snd (main sampleEnv [''--'', []]) =
       Uncaught \<lparr>name = ''TypeError'', message = ''The argument file cannot be empty'',
         status = None\<rparr>"
  by (simp add: child_defs sample_defs parse_defs build_defs run_defs main_defs)

section \<open>A SpawnError carries a nonzero status\<close>

text \<open>
  Claim C10. An error object named \<open>SpawnError\<close> that the runner passes to the callback
  was built by the \<^verbatim>\<open>'close'\<close> handler (the errors of \<^verbatim>\<open>'error'\<close> events come from
  Node and bear another name): it carries the nonzero exit status of the child, and
  \<^verbatim>\<open>err.status || 1\<close> yields that status. A child that exits with status zero produces
  no error.
\<close>

theorem spawnError_status_nonzero:
  assumes "commandLine E c as = (c', as', w)"
    and "spawn E k c' as' w = Inr evs"
    and "\<forall>e'. Error_event e' \<in> set evs \<longrightarrow> name e' \<noteq> ''SpawnError''"
    and "snd (spawnCommand E k c as) = Inr calls"
    and "Some e \<in> set calls"
    and "name e = ''SpawnError''"
  shows "(\<exists>s. s \<noteq> 0 \<and> status e = Some s \<and> Close_event (Some s) \<in> set evs
            \<and> exitStatus e = s)
     \<and> onClose (Some 0) = None"
proof -
  from assms(1,2,4) have "calls = deliver False evs"
    by (simp add: spawnCommand_def)
  with assms(5) obtain ev where ev: "ev \<in> set evs" "Some e = handler ev"
    using deliver_member by blast
  show ?thesis
  proof (cases ev)
    case (Error_event e')
    with ev assms(3,6) show ?thesis by auto
  next
    case (Close_event st)
    with ev have "onClose st = Some e" by simp
    from onClose_Some [OF this] Close_event ev(1) show ?thesis
      by (auto simp: onClose_def)
  qed
qed

theorem spawnError_status_nonzero_witness:
  "commandLine sampleEnv (Some ''lint'') [''src/b.js''] = (Some ''lint'', [''src/b.js''], False)
   \<and> spawn sampleEnv 0 (Some ''lint'') [''src/b.js''] False = Inr [Close_event (Some 3)]
   \<and> snd (spawnCommand sampleEnv 0 (Some ''lint'') [''src/b.js'']) =
       Inr [Some \<lparr>name = ''SpawnError'', message = ''Exit status 3'', status = Some 3\<rparr>]
   \<and> exitStatus \<lparr>name = ''SpawnError'', message = ''Exit status 3'', status = Some 3\<rparr> = 3"
proof -
  let ?e = "\<lparr>name = ''SpawnError'', message = ''Exit status 3'', status = Some 3\<rparr>"
  have cl: "commandLine sampleEnv (Some ''lint'') [''src/b.js'']
      = (Some ''lint'', [''src/b.js''], False)"
    by (simp add: commandLine_def sampleEnv_def)
  have sp: "spawn sampleEnv 0 (Some ''lint'') [''src/b.js''] False = Inr [Close_event (Some 3)]"
    by (simp add: sampleEnv_def sampleSpawn_def)
  have no: "\<forall>e'. Error_event e' \<in> set [Close_event (Some 3)] \<longrightarrow> name e' \<noteq> ''SpawnError''"
    by simp
  have res: "snd (spawnCommand sampleEnv 0 (Some ''lint'') [''src/b.js'']) = Inr [Some ?e]"
    by (simp add: spawnCommand_def cl sp onetime_def onClose_def show_int_def)
  have mem: "Some ?e \<in> set [Some ?e]" by simp
  have nm: "name ?e = ''SpawnError''" by simp
  from spawnError_status_nonzero [OF cl sp no res mem nm] cl sp res show ?thesis
    by auto
qed

section \<open>Each mode: more than one glob\<close>

text \<open>
  Claim C1. In each mode (yargs did not fail and the flag \<^verbatim>\<open>each\<close> is set), when two or
  more of the argument tokens are glob patterns for the test that counts them, the
  builder fails with the error \<^verbatim>\<open>each cannot accept multiple globs\<close>; the run calls
  neither the matching engine nor \<^verbatim>\<open>spawn\<close>, its only effect besides logging is
  \<^verbatim>\<open>exit(1)\<close>, and the exit code of the process is 1.
\<close>

theorem each_rejects_multiple_globs:
  assumes "failure (fst (parseArgv E argv)) = None"
    and "truthy (each (fst (parseArgv E argv)))"
    and "2 \<le> length (filter (\<lambda>t. isGlob E t False) (args (fst (parseArgv E argv))))"
  shows "fst (globArgsEach E (args (fst (parseArgv E argv))) (globOpts (fst (parseArgv E argv))))
       = Inl multipleGlobs
     \<and> message multipleGlobs = ''each cannot accept multiple globs''
     \<and> filter isExpand (fst (main E argv)) = []
     \<and> filter isSpawn (fst (main E argv)) = []
     \<and> unlogged (fst (main E argv)) = [Exit 1]
     \<and> snd (main E argv) = Exited 1
     \<and> processExitCode (snd (main E argv)) = Some 1"
proof -
  obtain a level where parsed: "parseArgv E argv = (a, level)"
    by (cases "parseArgv E argv") auto
  with assms have a: "failure a = None" "truthy (each a)"
    and "2 \<le> length (filter (\<lambda>t. isGlob E t False) (args a))"
    by simp_all
  then have many: "1 < globCount E (args a)"
    by (simp add: globCount_length)
  then have each: "globArgsEach E (args a) (globOpts a) =
      (Inl multipleGlobs, (globOpts a)(''nonull'' \<mapsto> JBool True),
       [Log ''silly'' (OptsDump ((globOpts a)(''nonull'' \<mapsto> JBool True)))])"
    by (simp add: globArgsEach_def Let_def)
  have "main E argv = mainEach E level a"
    using parsed a by (rule main_each)
  then show ?thesis
    using each parsed
    by (simp add: mainEach_def errorHandler_def multipleGlobs_def exitStatus_def unlogged_def)
qed

theorem each_rejects_multiple_globs_witness:
  "failure (fst (parseArgv sampleEnv [''-e'', ''--'', ''cp'', ''*.txt'', ''*.md''])) = None
   \<and> truthy (each (fst (parseArgv sampleEnv [''-e'', ''--'', ''cp'', ''*.txt'', ''*.md''])))
   \<and> args (fst (parseArgv sampleEnv [''-e'', ''--'', ''cp'', ''*.txt'', ''*.md'']))
       = [''*.txt'', ''*.md'']
   \<and> unlogged (fst (main sampleEnv [''-e'', ''--'', ''cp'', ''*.txt'', ''*.md''])) = [Exit 1]
   \<and> snd (main sampleEnv [''-e'', ''--'', ''cp'', ''*.txt'', ''*.md'']) = Exited 1"
proof -
  let ?argv = "[''-e'', ''--'', ''cp'', ''*.txt'', ''*.md'']"
  have ok: "failure (fst (parseArgv sampleEnv ?argv)) = None"
    by (simp add: sample_defs parse_defs)
  have flag: "truthy (each (fst (parseArgv sampleEnv ?argv)))"
    by (simp add: sample_defs parse_defs)
  have toks: "args (fst (parseArgv sampleEnv ?argv)) = [''*.txt'', ''*.md'']"
    by (simp add: sample_defs parse_defs)
  have two: "2 \<le> length (filter (\<lambda>t. isGlob sampleEnv t False)
      (args (fst (parseArgv sampleEnv ?argv))))"
    by (simp add: toks) (simp add: sample_defs)
  note run = each_rejects_multiple_globs [OF ok flag two]
  from ok flag toks run [THEN conjunct2, THEN conjunct2, THEN conjunct2, THEN conjunct2, THEN conjunct1]
    run [THEN conjunct2, THEN conjunct2, THEN conjunct2, THEN conjunct2, THEN conjunct2,
      THEN conjunct1]
  show ?thesis by simp
qed

section \<open>Each mode: one child after the other\<close>



section \<open>The exit code\<close>

text \<open>
  Claim C4. For every invocation, with \<open>a\<close> the result of \<open>parseArgv\<close>, \<open>xs\<close> the argument
  list of bulk mode and \<open>code\<close> the exit code of the process:
  \<^item> when yargs reported a failure, \<open>code\<close> is 1;
  \<^item> in each mode, when the builder fails with an error, \<open>code\<close> is \<^verbatim>\<open>err.status || 1\<close>,
    which is 1 for an error without status (as the error for several globs is);
  \<^item> in each mode, when every child succeeds, \<open>code\<close> is 0; when the first child that does
    not succeed exits with the nonzero status \<open>s\<close>, \<open>code\<close> is \<open>s\<close>; when it fails with an
    error \<open>e\<close> (\<^verbatim>\<open>spawn\<close> throws it, or an \<^verbatim>\<open>'error'\<close> event carries it), \<open>code\<close> is
    \<^verbatim>\<open>e.status || 1\<close>, which is 1 for an error without status; when it never reports,
    the process does not exit;
  \<^item> in bulk mode, when the child succeeds \<open>code\<close> is 0; when it exits with the nonzero
    status \<open>s\<close>, \<open>code\<close> is \<open>s\<close>; when its first event is an \<^verbatim>\<open>'error'\<close> with \<open>e\<close>, \<open>code\<close> is
    \<^verbatim>\<open>e.status || 1\<close>, which is 1 for an error without status; when \<^verbatim>\<open>spawn\<close> throws,
    the exception is uncaught and \<open>code\<close> is 1; when the child never reports, the process
    does not exit.
  A child succeeds, fails with some error or never reports (\<open>child_cases\<close>), so these
  cases cover every invocation.
\<close>

theorem exit_code_mapping:
  assumes "a = fst (parseArgv E argv)"
    and "xs = fst (globArgs E (args a) (globOpts a))"
    and "code = processExitCode (snd (main E argv))"
  shows "(failure a \<noteq> None \<longrightarrow> code = Some 1)
     \<and> (\<forall>e. failure a = None \<and> truthy (each a)
            \<and> fst (globArgsEach E (args a) (globOpts a)) = Inl e \<longrightarrow>
          code = Some (exitStatus e) \<and> (status e = None \<longrightarrow> code = Some 1))
     \<and> (\<forall>vs. failure a = None \<and> truthy (each a)
            \<and> fst (globArgsEach E (args a) (globOpts a)) = Inr vs
            \<and> (\<forall>i<length vs. succeeds E i (cmd a) (vs ! i)) \<longrightarrow>
          code = Some 0)
     \<and> (\<forall>vs j s evs. failure a = None \<and> truthy (each a)
            \<and> fst (globArgsEach E (args a) (globOpts a)) = Inr vs
            \<and> j < length vs \<and> (\<forall>i<j. succeeds E i (cmd a) (vs ! i))
            \<and> childEvents E j (cmd a) (vs ! j) = Inr (Close_event (Some s) # evs) \<and> s \<noteq> 0 \<longrightarrow>
          code = Some s)
     \<and> (\<forall>vs j e. failure a = None \<and> truthy (each a)
            \<and> fst (globArgsEach E (args a) (globOpts a)) = Inr vs
            \<and> j < length vs \<and> (\<forall>i<j. succeeds E i (cmd a) (vs ! i))
            \<and> failsWith E j (cmd a) (vs ! j) e \<longrightarrow>
          code = Some (exitStatus e) \<and> (status e = None \<longrightarrow> code = Some 1))
     \<and> (\<forall>vs j. failure a = None \<and> truthy (each a)
            \<and> fst (globArgsEach E (args a) (globOpts a)) = Inr vs
            \<and> j < length vs \<and> (\<forall>i<j. succeeds E i (cmd a) (vs ! i))
            \<and> childEvents E j (cmd a) (vs ! j) = Inr [] \<longrightarrow>
          code = None)
     \<and> (failure a = None \<and> \<not> truthy (each a) \<and> succeeds E 0 (cmd a) xs \<longrightarrow> code = Some 0)
     \<and> (\<forall>s evs. failure a = None \<and> \<not> truthy (each a)
            \<and> childEvents E 0 (cmd a) xs = Inr (Close_event (Some s) # evs) \<and> s \<noteq> 0 \<longrightarrow>
          code = Some s)
     \<and> (\<forall>e evs. failure a = None \<and> \<not> truthy (each a)
            \<and> childEvents E 0 (cmd a) xs = Inr (Error_event e # evs) \<longrightarrow>
          code = Some (exitStatus e) \<and> (status e = None \<longrightarrow> code = Some 1))
     \<and> (\<forall>e. failure a = None \<and> \<not> truthy (each a)
            \<and> childEvents E 0 (cmd a) xs = Inl e \<longrightarrow>
          code = Some 1)
     \<and> (failure a = None \<and> \<not> truthy (each a) \<and> childEvents E 0 (cmd a) xs = Inr [] \<longrightarrow>
          code = None)"
proof -
  let ?l = "snd (parseArgv E argv)"
  have each: "failure a = None \<Longrightarrow> truthy (each a) \<Longrightarrow> code = processExitCode (snd (mainEach E ?l a))"
    using assms(1,3) by (simp add: main_mode(1))
  have bulk: "failure a = None \<Longrightarrow> \<not> truthy (each a) \<Longrightarrow>
      code = processExitCode
        (case childEvents E 0 (cmd a) xs of
           Inl e \<Rightarrow> Uncaught e
         | Inr [] \<Rightarrow> Pending
         | Inr (ev # evs) \<Rightarrow> Exited (case handler ev of None \<Rightarrow> 0 | Some e \<Rightarrow> exitStatus e))"
    using assms by (simp add: main_mode(2) mainBulk_outcome)
  show ?thesis
  proof (intro conjI allI impI)
    assume "failure a \<noteq> None"
    with assms(1,3) show "code = Some 1" by (simp add: yargs_failure_exits_1)
  next
    fix e
    assume h: "failure a = None \<and> truthy (each a)
        \<and> fst (globArgsEach E (args a) (globOpts a)) = Inl e"
    with assms(1,3) builder_error_exit [of E argv e]
    show c: "code = Some (exitStatus e)" by simp
    assume "status e = None"
    with c show "code = Some 1" by (simp add: exitStatus_cases)
  next
    fix vs
    assume h: "failure a = None \<and> truthy (each a)
        \<and> fst (globArgsEach E (args a) (globOpts a)) = Inr vs
        \<and> (\<forall>i<length vs. succeeds E i (cmd a) (vs ! i))"
    then obtain g built where b: "globArgsEach E (args a) (globOpts a) = (Inr vs, g, built)"
      by (cases "globArgsEach E (args a) (globOpts a)") auto
    from h have "\<forall>i<length vs. succeeds E i (cmd a) (vs ! i)" by simp
    from mainEach_all_succeed(3) [OF b this, of ?l] each h
    show "code = Some 0" by simp
  next
    fix vs j s evs
    assume h: "failure a = None \<and> truthy (each a)
        \<and> fst (globArgsEach E (args a) (globOpts a)) = Inr vs
        \<and> j < length vs \<and> (\<forall>i<j. succeeds E i (cmd a) (vs ! i))
        \<and> childEvents E j (cmd a) (vs ! j) = Inr (Close_event (Some s) # evs) \<and> s \<noteq> 0"
    then obtain g built where b: "globArgsEach E (args a) (globOpts a) = (Inr vs, g, built)"
      by (cases "globArgsEach E (args a) (globOpts a)") auto
    from h have j: "j < length vs" and ok: "\<forall>i<j. succeeds E i (cmd a) (vs ! i)"
      and ev: "childEvents E j (cmd a) (vs ! j) = Inr (Close_event (Some s) # evs)"
      and s: "s \<noteq> 0" by simp_all
    from failsWith_close [OF ev s] s
    have bad: "failsWith E j (cmd a) (vs ! j)
        \<lparr>name = ''SpawnError'', message = ''Exit status '' @ show_int s, status = Some s\<rparr>"
      by (simp add: onClose_def)
    from mainEach_after_failure(3) [OF b j ok bad, of ?l] each h s
    show "code = Some s" by (simp add: exitStatus_def)
  next
    fix vs j e
    assume h: "failure a = None \<and> truthy (each a)
        \<and> fst (globArgsEach E (args a) (globOpts a)) = Inr vs
        \<and> j < length vs \<and> (\<forall>i<j. succeeds E i (cmd a) (vs ! i))
        \<and> failsWith E j (cmd a) (vs ! j) e"
    then obtain g built where b: "globArgsEach E (args a) (globOpts a) = (Inr vs, g, built)"
      by (cases "globArgsEach E (args a) (globOpts a)") auto
    from h have j: "j < length vs" and ok: "\<forall>i<j. succeeds E i (cmd a) (vs ! i)"
      and bad: "failsWith E j (cmd a) (vs ! j) e" by simp_all
    from mainEach_after_failure(3) [OF b j ok bad, of ?l] each h
    show c: "code = Some (exitStatus e)" by simp
    assume "status e = None"
    with c show "code = Some 1" by (simp add: exitStatus_cases)
  next
    fix vs j
    assume h: "failure a = None \<and> truthy (each a)
        \<and> fst (globArgsEach E (args a) (globOpts a)) = Inr vs
        \<and> j < length vs \<and> (\<forall>i<j. succeeds E i (cmd a) (vs ! i))
        \<and> childEvents E j (cmd a) (vs ! j) = Inr []"
    then obtain g built where b: "globArgsEach E (args a) (globOpts a) = (Inr vs, g, built)"
      by (cases "globArgsEach E (args a) (globOpts a)") auto
    from h have j: "j < length vs" and ok: "\<forall>i<j. succeeds E i (cmd a) (vs ! i)"
      and never: "childEvents E j (cmd a) (vs ! j) = Inr []" by simp_all
    from mainEach_pending [OF b j ok never, of ?l] each h
    show "code = None" by simp
  next
    assume h: "failure a = None \<and> \<not> truthy (each a) \<and> succeeds E 0 (cmd a) xs"
    with bulk show "code = Some 0"
      by (auto simp: succeeds_def onClose_def
          split: sum.splits list.splits child_event.splits)
  next
    fix s evs
    assume "failure a = None \<and> \<not> truthy (each a)
        \<and> childEvents E 0 (cmd a) xs = Inr (Close_event (Some s) # evs) \<and> s \<noteq> 0"
    with bulk show "code = Some s"
      by (simp add: onClose_def exitStatus_def)
  next
    fix e evs
    assume h: "failure a = None \<and> \<not> truthy (each a)
        \<and> childEvents E 0 (cmd a) xs = Inr (Error_event e # evs)"
    with bulk show c: "code = Some (exitStatus e)" by simp
    assume "status e = None"
    with c show "code = Some 1" by (simp add: exitStatus_cases)
  next
    fix e
    assume "failure a = None \<and> \<not> truthy (each a) \<and> childEvents E 0 (cmd a) xs = Inl e"
    with bulk show "code = Some 1" by simp
  next
    assume "failure a = None \<and> \<not> truthy (each a) \<and> childEvents E 0 (cmd a) xs = Inr []"
    with bulk show "code = None" by simp
  qed
qed

theorem exit_code_mapping_witness:
  "failure (fst (parseArgv sampleEnv [])) \<noteq> None
   \<and> processExitCode (snd (main sampleEnv [])) = Some 1
   \<and> processExitCode (snd (main sampleEnv [''-e'', ''--'', ''cp'', ''*.txt'', ''*.md''])) = Some 1
   \<and> processExitCode (snd (main sampleEnv [''-e'', ''--'', ''echo'', ''src/**/*.js''])) = Some 0
   \<and> processExitCode (snd (main sampleEnv [''-e'', ''--'', ''lint'', ''src/**/*.js''])) = Some 3
   \<and> processExitCode (snd (main sampleEnv [''-e'', ''--'', ''missing'', ''src/**/*.js''])) = Some 1
   \<and> processExitCode (snd (main sampleEnv [''-e'', ''--'', ''hang'', ''src/**/*.js''])) = None
   \<and> processExitCode (snd (main sampleEnv [''--'', ''build'', ''src/**/*.js''])) = Some 0
   \<and> processExitCode (snd (main sampleEnv [''--'', ''lint'', ''src/**/*.js''])) = Some 3
   \<and> processExitCode (snd (main sampleEnv [''--'', ''missing'', ''x''])) = Some 1
   \<and> processExitCode (snd (main sampleEnv [''--'', []])) = Some 1
   \<and> processExitCode (snd (main sampleEnv [''--'', ''hang''])) = None"
proof -
  let ?vs = "[[''src/a.js''], [''src/b.js'']]"
  let ?enoent = "\<lparr>name = ''Error'', message = ''spawn missing ENOENT'', status = None\<rparr>"
  let ?empty = "\<lparr>name = ''TypeError'', message = ''The argument file cannot be empty'',
      status = None\<rparr>"
  let ?none = "[]"
  have h_none: "failure (fst (parseArgv sampleEnv ?none)) \<noteq> None"
    by (simp add: sample_defs parse_defs build_defs child_defs commandLine_def
        multipleGlobs_def All_less_Suc)
  from exit_code_mapping [OF refl refl refl, of sampleEnv ?none,
      THEN conjunct1, rule_format, OF h_none]
  have r_none: "processExitCode (snd (main sampleEnv ?none)) = Some 1"
    by (simp add: exitStatus_def multipleGlobs_def)
  let ?cp = "[''-e'', ''--'', ''cp'', ''*.txt'', ''*.md'']"
  have h_cp: "failure (fst (parseArgv sampleEnv ?cp)) = None
      \<and> truthy (each (fst (parseArgv sampleEnv ?cp)))
      \<and> fst (globArgsEach sampleEnv (args (fst (parseArgv sampleEnv ?cp))) (globOpts (fst (parseArgv sampleEnv ?cp)))) = Inl multipleGlobs"
    by (simp add: sample_defs parse_defs build_defs child_defs commandLine_def
        multipleGlobs_def All_less_Suc)
  from exit_code_mapping [OF refl refl refl, of sampleEnv ?cp,
      THEN conjunct2, THEN conjunct1, rule_format, OF h_cp]
  have r_cp: "processExitCode (snd (main sampleEnv ?cp)) = Some 1"
    by (simp add: exitStatus_def multipleGlobs_def)
  let ?echo = "[''-e'', ''--'', ''echo'', ''src/**/*.js'']"
  have h_echo: "failure (fst (parseArgv sampleEnv ?echo)) = None
      \<and> truthy (each (fst (parseArgv sampleEnv ?echo)))
      \<and> fst (globArgsEach sampleEnv (args (fst (parseArgv sampleEnv ?echo))) (globOpts (fst (parseArgv sampleEnv ?echo)))) = Inr ?vs
      \<and> (\<forall>i<length ?vs. succeeds sampleEnv i (cmd (fst (parseArgv sampleEnv ?echo))) (?vs ! i))"
    by (simp add: sample_defs parse_defs build_defs child_defs commandLine_def
        multipleGlobs_def All_less_Suc)
  from exit_code_mapping [OF refl refl refl, of sampleEnv ?echo,
      THEN conjunct2, THEN conjunct2, THEN conjunct1, rule_format, OF h_echo]
  have r_echo: "processExitCode (snd (main sampleEnv ?echo)) = Some 0"
    by (simp add: exitStatus_def multipleGlobs_def)
  let ?lint = "[''-e'', ''--'', ''lint'', ''src/**/*.js'']"
  have h_lint: "failure (fst (parseArgv sampleEnv ?lint)) = None
      \<and> truthy (each (fst (parseArgv sampleEnv ?lint)))
      \<and> fst (globArgsEach sampleEnv (args (fst (parseArgv sampleEnv ?lint))) (globOpts (fst (parseArgv sampleEnv ?lint)))) = Inr ?vs
      \<and> Suc 0 < length ?vs
      \<and> (\<forall>i<Suc 0. succeeds sampleEnv i (cmd (fst (parseArgv sampleEnv ?lint))) (?vs ! i))
      \<and> childEvents sampleEnv (Suc 0) (cmd (fst (parseArgv sampleEnv ?lint))) (?vs ! Suc 0) = Inr (Close_event (Some 3) # [])
      \<and> (3::int) \<noteq> 0"
    by (simp add: sample_defs parse_defs build_defs child_defs commandLine_def
        multipleGlobs_def All_less_Suc)
  from exit_code_mapping [OF refl refl refl, of sampleEnv ?lint,
      THEN conjunct2, THEN conjunct2, THEN conjunct2, THEN conjunct1, rule_format, OF h_lint]
  have r_lint: "processExitCode (snd (main sampleEnv ?lint)) = Some 3"
    by (simp add: exitStatus_def multipleGlobs_def)
  let ?missing = "[''-e'', ''--'', ''missing'', ''src/**/*.js'']"
  have h_missing: "failure (fst (parseArgv sampleEnv ?missing)) = None
      \<and> truthy (each (fst (parseArgv sampleEnv ?missing)))
      \<and> fst (globArgsEach sampleEnv (args (fst (parseArgv sampleEnv ?missing))) (globOpts (fst (parseArgv sampleEnv ?missing)))) = Inr ?vs
      \<and> 0 < length ?vs
      \<and> (\<forall>i<0. succeeds sampleEnv i (cmd (fst (parseArgv sampleEnv ?missing))) (?vs ! i))
      \<and> failsWith sampleEnv 0 (cmd (fst (parseArgv sampleEnv ?missing))) (?vs ! 0) ?enoent"
    by (simp add: sample_defs parse_defs build_defs child_defs commandLine_def
        multipleGlobs_def All_less_Suc)
  from exit_code_mapping [OF refl refl refl, of sampleEnv ?missing,
      THEN conjunct2, THEN conjunct2, THEN conjunct2, THEN conjunct2, THEN conjunct1,
      rule_format, OF h_missing]
  have r_missing: "processExitCode (snd (main sampleEnv ?missing)) = Some 1"
    by (simp add: exitStatus_def multipleGlobs_def)
  let ?hang = "[''-e'', ''--'', ''hang'', ''src/**/*.js'']"
  have h_hang: "failure (fst (parseArgv sampleEnv ?hang)) = None
      \<and> truthy (each (fst (parseArgv sampleEnv ?hang)))
      \<and> fst (globArgsEach sampleEnv (args (fst (parseArgv sampleEnv ?hang))) (globOpts (fst (parseArgv sampleEnv ?hang)))) = Inr ?vs
      \<and> 0 < length ?vs
      \<and> (\<forall>i<0. succeeds sampleEnv i (cmd (fst (parseArgv sampleEnv ?hang))) (?vs ! i))
      \<and> childEvents sampleEnv 0 (cmd (fst (parseArgv sampleEnv ?hang))) (?vs ! 0) = Inr []"
    by (simp add: sample_defs parse_defs build_defs child_defs commandLine_def
        multipleGlobs_def All_less_Suc)
  from exit_code_mapping [OF refl refl refl, of sampleEnv ?hang,
      THEN conjunct2, THEN conjunct2, THEN conjunct2, THEN conjunct2, THEN conjunct2,
      THEN conjunct1, rule_format, OF h_hang]
  have r_hang: "processExitCode (snd (main sampleEnv ?hang)) = None"
    by (simp add: exitStatus_def multipleGlobs_def)
  let ?build = "[''--'', ''build'', ''src/**/*.js'']"
  have h_build: "failure (fst (parseArgv sampleEnv ?build)) = None
      \<and> \<not> truthy (each (fst (parseArgv sampleEnv ?build)))
      \<and> succeeds sampleEnv 0 (cmd (fst (parseArgv sampleEnv ?build))) (fst (globArgs sampleEnv (args (fst (parseArgv sampleEnv ?build))) (globOpts (fst (parseArgv sampleEnv ?build)))))"
    by (simp add: sample_defs parse_defs build_defs child_defs commandLine_def
        multipleGlobs_def All_less_Suc)
  from exit_code_mapping [OF refl refl refl, of sampleEnv ?build,
      THEN conjunct2, THEN conjunct2, THEN conjunct2, THEN conjunct2, THEN conjunct2,
      THEN conjunct2, THEN conjunct1, rule_format, OF h_build]
  have r_build: "processExitCode (snd (main sampleEnv ?build)) = Some 0"
    by (simp add: exitStatus_def multipleGlobs_def)
  let ?lintAll = "[''--'', ''lint'', ''src/**/*.js'']"
  have h_lintAll: "failure (fst (parseArgv sampleEnv ?lintAll)) = None
      \<and> \<not> truthy (each (fst (parseArgv sampleEnv ?lintAll)))
      \<and> childEvents sampleEnv 0 (cmd (fst (parseArgv sampleEnv ?lintAll))) (fst (globArgs sampleEnv (args (fst (parseArgv sampleEnv ?lintAll))) (globOpts (fst (parseArgv sampleEnv ?lintAll))))) = Inr (Close_event (Some 3) # [])
      \<and> (3::int) \<noteq> 0"
    by (simp add: sample_defs parse_defs build_defs child_defs commandLine_def
        multipleGlobs_def All_less_Suc)
  from exit_code_mapping [OF refl refl refl, of sampleEnv ?lintAll,
      THEN conjunct2, THEN conjunct2, THEN conjunct2, THEN conjunct2, THEN conjunct2,
      THEN conjunct2, THEN conjunct2, THEN conjunct1, rule_format, OF h_lintAll]
  have r_lintAll: "processExitCode (snd (main sampleEnv ?lintAll)) = Some 3"
    by (simp add: exitStatus_def multipleGlobs_def)
  let ?missingAll = "[''--'', ''missing'', ''x'']"
  have h_missingAll: "failure (fst (parseArgv sampleEnv ?missingAll)) = None
      \<and> \<not> truthy (each (fst (parseArgv sampleEnv ?missingAll)))
      \<and> childEvents sampleEnv 0 (cmd (fst (parseArgv sampleEnv ?missingAll))) (fst (globArgs sampleEnv (args (fst (parseArgv sampleEnv ?missingAll))) (globOpts (fst (parseArgv sampleEnv ?missingAll))))) = Inr (Error_event ?enoent # [Close_event (Some (- 2))])"
    by (simp add: sample_defs parse_defs build_defs child_defs commandLine_def
        multipleGlobs_def All_less_Suc)
  from exit_code_mapping [OF refl refl refl, of sampleEnv ?missingAll,
      THEN conjunct2, THEN conjunct2, THEN conjunct2, THEN conjunct2, THEN conjunct2,
      THEN conjunct2, THEN conjunct2, THEN conjunct2, THEN conjunct1, rule_format,
      OF h_missingAll]
  have r_missingAll: "processExitCode (snd (main sampleEnv ?missingAll)) = Some 1"
    by (simp add: exitStatus_def multipleGlobs_def)
  let ?emptyAll = "[''--'', []]"
  have h_emptyAll: "failure (fst (parseArgv sampleEnv ?emptyAll)) = None
      \<and> \<not> truthy (each (fst (parseArgv sampleEnv ?emptyAll)))
      \<and> childEvents sampleEnv 0 (cmd (fst (parseArgv sampleEnv ?emptyAll))) (fst (globArgs sampleEnv (args (fst (parseArgv sampleEnv ?emptyAll))) (globOpts (fst (parseArgv sampleEnv ?emptyAll))))) = Inl ?empty"
    by (simp add: sample_defs parse_defs build_defs child_defs commandLine_def
        multipleGlobs_def All_less_Suc)
  from exit_code_mapping [OF refl refl refl, of sampleEnv ?emptyAll,
      THEN conjunct2, THEN conjunct2, THEN conjunct2, THEN conjunct2, THEN conjunct2,
      THEN conjunct2, THEN conjunct2, THEN conjunct2, THEN conjunct2, THEN conjunct1,
      rule_format, OF h_emptyAll]
  have r_emptyAll: "processExitCode (snd (main sampleEnv ?emptyAll)) = Some 1"
    by (simp add: exitStatus_def multipleGlobs_def)
  let ?hangAll = "[''--'', ''hang'']"
  have h_hangAll: "failure (fst (parseArgv sampleEnv ?hangAll)) = None
      \<and> \<not> truthy (each (fst (parseArgv sampleEnv ?hangAll)))
      \<and> childEvents sampleEnv 0 (cmd (fst (parseArgv sampleEnv ?hangAll))) (fst (globArgs sampleEnv (args (fst (parseArgv sampleEnv ?hangAll))) (globOpts (fst (parseArgv sampleEnv ?hangAll))))) = Inr []"
    by (simp add: sample_defs parse_defs build_defs child_defs commandLine_def
        multipleGlobs_def All_less_Suc)
  from exit_code_mapping [OF refl refl refl, of sampleEnv ?hangAll,
      THEN conjunct2, THEN conjunct2, THEN conjunct2, THEN conjunct2, THEN conjunct2,
      THEN conjunct2, THEN conjunct2, THEN conjunct2, THEN conjunct2, THEN conjunct2,
      rule_format, OF h_hangAll]
  have r_hangAll: "processExitCode (snd (main sampleEnv ?hangAll)) = None"
    by (simp add: exitStatus_def multipleGlobs_def)
  show ?thesis
    by (intro conjI h_none r_none r_cp r_echo r_lint r_missing r_hang r_build r_lintAll
        r_missingAll r_emptyAll r_hangAll)
qed

section \<open>Verbosity\<close>

text \<open>
  Claim C9. Two runs in the same environment whose parsed arguments differ only in the
  verbosity (the keys \<^verbatim>\<open>verbose\<close> and \<^verbatim>\<open>v\<close>) have the same effects once the log
  entries are left out: the same expansions, the same children with the same arguments in
  the same order, the same completions and the same call of \<^verbatim>\<open>exit\<close>; they end the same
  way, with the same exit code.
\<close>

theorem verbosity_only_affects_logging:
  assumes "fst (yargs E argv1) = fst (yargs E argv2)"
    and "\<forall>k. k \<noteq> ''verbose'' \<and> k \<noteq> ''v'' \<longrightarrow> snd (yargs E argv1) k = snd (yargs E argv2) k"
  shows "unlogged (fst (main E argv1)) = unlogged (fst (main E argv2))
     \<and> filter isSpawn (fst (main E argv1)) = filter isSpawn (fst (main E argv2))
     \<and> snd (main E argv1) = snd (main E argv2)
     \<and> processExitCode (snd (main E argv1)) = processExitCode (snd (main E argv2))"
proof -
  note same = parse_verbosity [OF assms]
  have run: "unlogged (fst (main E argv1)) = unlogged (fst (main E argv2))
     \<and> snd (main E argv1) = snd (main E argv2)"
  proof (cases "failure (fst (parseArgv E argv2)) = None")
    case False
    with same(1,5) show ?thesis
      by (simp add: main_def split_beta errorHandler_result)
  next
    case True
    with same(1,2) mainEach_level [OF same(3,4,5,6)] mainBulk_level [OF same(3,4,5,6)]
    show ?thesis
      by (simp add: main_def split_beta)
  qed
  then show ?thesis
    using spawns_of_unlogged [of "fst (main E argv1)"] spawns_of_unlogged [of "fst (main E argv2)"]
    by simp
qed

theorem verbosity_only_affects_logging_witness:
  "fst (yargs sampleEnv [''-e'', ''--'', ''lint'', ''src/**/*.js''])
     = fst (yargs sampleEnv [''-v'', ''-v'', ''-e'', ''--'', ''lint'', ''src/**/*.js''])
   \<and> snd (parseArgv sampleEnv [''-e'', ''--'', ''lint'', ''src/**/*.js'']) = Some ''info''
   \<and> snd (parseArgv sampleEnv [''-v'', ''-v'', ''-e'', ''--'', ''lint'', ''src/**/*.js''])
       = Some ''silly''
   \<and> unlogged (fst (main sampleEnv [''-e'', ''--'', ''lint'', ''src/**/*.js'']))
       = unlogged (fst (main sampleEnv [''-v'', ''-v'', ''-e'', ''--'', ''lint'', ''src/**/*.js'']))
   \<and> snd (main sampleEnv [''-e'', ''--'', ''lint'', ''src/**/*.js''])
       = snd (main sampleEnv [''-v'', ''-v'', ''-e'', ''--'', ''lint'', ''src/**/*.js''])
   \<and> snd (main sampleEnv [''-v'', ''-v'', ''-e'', ''--'', ''lint'', ''src/**/*.js'']) = Exited 3"
proof -
  let ?quiet = "[''-e'', ''--'', ''lint'', ''src/**/*.js'']"
  let ?silly = "[''-v'', ''-v'', ''-e'', ''--'', ''lint'', ''src/**/*.js'']"
  have fails: "fst (yargs sampleEnv ?quiet) = fst (yargs sampleEnv ?silly)"
    by (simp add: sample_defs)
  have rest: "\<forall>k. k \<noteq> ''verbose'' \<and> k \<noteq> ''v'' \<longrightarrow>
      snd (yargs sampleEnv ?quiet) k = snd (yargs sampleEnv ?silly) k"
    by (simp add: sample_defs)
  have info: "snd (parseArgv sampleEnv ?quiet) = Some ''info''"
    by (simp add: sample_defs parse_defs)
  have silly: "snd (parseArgv sampleEnv ?silly) = Some ''silly''"
    by (simp add: sample_defs parse_defs)
  have code: "snd (main sampleEnv ?silly) = Exited 3"
    by (simp add: sample_defs parse_defs build_defs run_defs main_defs)
  note same = verbosity_only_affects_logging [OF fails rest]
  show ?thesis
    by (intro conjI fails info silly code same [THEN conjunct1]
        same [THEN conjunct2, THEN conjunct2, THEN conjunct1])
qed

section \<open>The glob options after construction\<close>

text \<open>
  Claim C8, as amended. After \<open>parseArgv\<close> has built the glob options, the only change a later
  operation makes to them is that each argument builder sets the entry \<^verbatim>\<open>nonull\<close> to
  true before it expands anything; every other entry, the ignore list included, is as
  \<open>parseArgv\<close> left it, and the process runner is not given the options at all. The ignore
  pattern for \<^verbatim>\<open>node_modules\<close> is appended once, by \<open>parseArgv\<close> itself, when the flag
  \<^verbatim>\<open>node\<close> is set. Every call of the matching engine in a run sees the options of
  \<open>parseArgv\<close> with \<^verbatim>\<open>nonull\<close> set.
\<close>

theorem globOpts_only_nonull_changes:
  "fst (snd (globArgs E as opts)) = opts(''nonull'' \<mapsto> JBool True)
   \<and> fst (snd (globArgsEach E as opts)) = opts(''nonull'' \<mapsto> JBool True)
   \<and> (\<forall>k. k \<noteq> ''nonull'' \<longrightarrow>
         fst (snd (globArgs E as opts)) k = opts k
         \<and> fst (snd (globArgsEach E as opts)) k = opts k)
   \<and> globOpts (fst (parseArgv E argv)) ''ignore'' =
       (if truthy (snd (yargs E argv) ''node'')
        then Some (JArr (ignoreList (snd (yargs E argv) ''ignore'') @ [''**/node_modules/**'']))
        else snd (yargs E argv) ''ignore'')
   \<and> (\<forall>p g. Expand p g \<in> set (fst (main E argv)) \<longrightarrow>
         g = (globOpts (fst (parseArgv E argv)))(''nonull'' \<mapsto> JBool True))"
proof (intro conjI allI impI)
  show a: "fst (snd (globArgs E as opts)) = opts(''nonull'' \<mapsto> JBool True)"
    by (simp add: globArgs_def Let_def)
  show b: "fst (snd (globArgsEach E as opts)) = opts(''nonull'' \<mapsto> JBool True)"
    by (simp add: globArgsEach_def Let_def split: option.splits)
  fix k :: string assume "k \<noteq> ''nonull''"
  then show "fst (snd (globArgs E as opts)) k = opts k"
    and "fst (snd (globArgsEach E as opts)) k = opts k"
    by (simp_all add: a b)
next
  show "globOpts (fst (parseArgv E argv)) ''ignore'' =
       (if truthy (snd (yargs E argv) ''node'')
        then Some (JArr (ignoreList (snd (yargs E argv) ''ignore'') @ [''**/node_modules/**'']))
        else snd (yargs E argv) ''ignore'')"
    by (simp add: parseArgv_def Let_def split_beta deleteFlags_def nonGlobFlag_def
        addNodeIgnore_def setVerbose_def withDefaults_def map_add_def split: option.splits)
next
  fix p g assume "Expand p g \<in> set (fst (main E argv))"
  then show "g = (globOpts (fst (parseArgv E argv)))(''nonull'' \<mapsto> JBool True)"
    by (rule main_expand)
qed

theorem globOpts_only_nonull_changes_witness:
  "''ignore'' \<noteq> ''nonull''
   \<and> fst (snd (globArgs sampleEnv [''src/**/*.js'']
        (globOpts (fst (parseArgv sampleEnv [''-n'', ''--'', ''build'', ''src/**/*.js''])))))
        ''ignore'' = Some (JArr [''**/node_modules/**''])
   \<and> globOpts (fst (parseArgv sampleEnv [''-n'', ''--'', ''build'', ''src/**/*.js'']))
        ''ignore'' = Some (JArr [''**/node_modules/**''])
   \<and> fst (snd (globArgs sampleEnv [''src/**/*.js'']
        (globOpts (fst (parseArgv sampleEnv [''-n'', ''--'', ''build'', ''src/**/*.js''])))))
        ''nonull'' = Some (JBool True)"
proof -
  let ?a = "fst (parseArgv sampleEnv [''-n'', ''--'', ''build'', ''src/**/*.js''])"
  note frame = globOpts_only_nonull_changes
    [of sampleEnv "[''src/**/*.js'']" "globOpts ?a" "[''-n'', ''--'', ''build'', ''src/**/*.js'']"]
  have key: "''ignore'' \<noteq> ''nonull''" by simp
  have parsed: "globOpts ?a ''ignore'' = Some (JArr [''**/node_modules/**''])"
    using frame [THEN conjunct2, THEN conjunct2, THEN conjunct2, THEN conjunct1]
    by (simp add: sample_defs)
  from frame [THEN conjunct2, THEN conjunct2, THEN conjunct1, rule_format, OF key, THEN conjunct1]
    parsed
  have kept: "fst (snd (globArgs sampleEnv [''src/**/*.js''] (globOpts ?a))) ''ignore''
      = Some (JArr [''**/node_modules/**''])"
    by simp
  from frame [THEN conjunct1]
  have forced: "fst (snd (globArgs sampleEnv [''src/**/*.js''] (globOpts ?a))) ''nonull''
      = Some (JBool True)"
    by simp
  show ?thesis by (intro conjI key kept parsed forced)
qed

text \<open>
  The claim as it was stated, that no later operation changes the glob options, fails:
  the options built for \<^verbatim>\<open>globstar -- build "src/**/*.js"\<close> have no entry \<^verbatim>\<open>nonull\<close>,
  and have one, set to true, once \<open>globArgs\<close> has run; an entry that the user set to
  false is overwritten in the same way.
\<close>

theorem globOpts_mutated_counterexample:
  "globOpts (fst (parseArgv sampleEnv [''--'', ''build'', ''src/**/*.js''])) ''nonull'' = None
   \<and> fst (snd (globArgs sampleEnv
        (args (fst (parseArgv sampleEnv [''--'', ''build'', ''src/**/*.js''])))
        (globOpts (fst (parseArgv sampleEnv [''--'', ''build'', ''src/**/*.js''])))))
        ''nonull'' = Some (JBool True)
   \<and> fst (snd (globArgs sampleEnv
        (args (fst (parseArgv sampleEnv [''--'', ''build'', ''src/**/*.js''])))
        (globOpts (fst (parseArgv sampleEnv [''--'', ''build'', ''src/**/*.js''])))))
       \<noteq> globOpts (fst (parseArgv sampleEnv [''--'', ''build'', ''src/**/*.js'']))
   \<and> fst (snd (globArgsEach sampleEnv [''*.txt''] [''nonull'' \<mapsto> JBool False])) ''nonull''
       \<noteq> [''nonull'' \<mapsto> JBool False] ''nonull''"
proof -
  let ?a = "fst (parseArgv sampleEnv [''--'', ''build'', ''src/**/*.js''])"
  have before: "globOpts ?a ''nonull'' = None"
    by (simp add: sample_defs parse_defs)
  have after: "fst (snd (globArgs sampleEnv (args ?a) (globOpts ?a))) ''nonull'' = Some (JBool True)"
    by (simp add: globArgs_def Let_def)
  from before after
  have changed: "fst (snd (globArgs sampleEnv (args ?a) (globOpts ?a))) \<noteq> globOpts ?a"
    by (metis option.distinct(1))
  have each: "fst (snd (globArgsEach sampleEnv [''*.txt''] [''nonull'' \<mapsto> JBool False])) ''nonull''
       \<noteq> [''nonull'' \<mapsto> JBool False] ''nonull''"
    by (simp add: build_defs sample_defs)
  show ?thesis by (intro conjI before after changed each)
qed

section \<open>Each mode: the glob that only the relaxed test sees\<close>

text \<open>
  Claim C2, at an input where the program departs from it. \<open>globArgsEach\<close> counts the glob
  tokens with the relaxed is-glob test and then looks for the glob with the strict one.
  For the token \<^verbatim>\<open>file(1).txt\<close> the first says yes and the second no: the count is 1,
  \<^verbatim>\<open>findIndex\<close> returns \<open>-1\<close>, the engine is called with \<^verbatim>\<open>undefined\<close> and throws, and
  the run ends with exit code 1 without starting the command. The claim asks for one
  argument list per match, or the tokens unchanged.
\<close>

theorem each_relaxed_only_glob_fails:
  "globCount sampleEnv [''file(1).txt''] = 1
   \<and> findIndex (\<lambda>arg. isGlob sampleEnv arg True) [''file(1).txt''] = - 1
   \<and> fst (globArgsEach sampleEnv [''file(1).txt''] Map.empty) = Inl (globNoPattern sampleEnv)
   \<and> fst (globArgsEach sampleEnv [''file(1).txt''] Map.empty) \<noteq> Inr [[''file(1).txt'']]
   \<and> filter isSpawn (fst (main sampleEnv [''-e'', ''--'', ''cat'', ''file(1).txt''])) = []
   \<and> snd (main sampleEnv [''-e'', ''--'', ''cat'', ''file(1).txt'']) = Exited 1"
  by (simp add: sample_defs parse_defs build_defs run_defs main_defs)

end
